theory Spec2Isabelle
  imports Main "HOL-Library.Sublist" "HOL-Library.Char_ord" "HOL-Library.List_Lexorder"
begin

section \<open>Data model\<close>

text \<open>
  The three scripts (\<^verbatim>\<open>embed-artwork.py\<close>, \<^verbatim>\<open>export-coverart.py\<close>, \<^verbatim>\<open>id3tocovr.py\<close>)
  work on files of a music library through Pillow (images) and mutagen (ID3 tags).
  An opened Pillow image is described by what the scripts read of it: its colour mode
  and its pixel size (Python integers), which \<^verbatim>\<open>Image.open\<close> takes from the header, and
  whether its pixel data can be loaded. \<^verbatim>\<open>Image.open\<close> is lazy: a file that is cut
  short opens, reports mode and size, and raises only when \<^verbatim>\<open>convert\<close>, \<^verbatim>\<open>resize\<close> or
  \<^verbatim>\<open>save\<close> loads the pixels.
\<close>

record image =
  mode :: string
  width :: int
  height :: int
  loads :: bool

text \<open>
  The bytes of a file, or of an artwork tag, are described by what Pillow makes of them:
  no bytes at all, bytes that \<^verbatim>\<open>Image.open\<close> rejects, or bytes that it identifies as
  an image of some file format (\<^verbatim>\<open>img.format\<close>, for instance \<^verbatim>\<open>"JPEG"\<close> or \<^verbatim>\<open>"PNG"\<close>)
  and opens (and verifies) as the image given.
\<close>

datatype content = Empty | Undecodable | Encoded string image

text \<open>
  An ID3 tag is mutagen's dictionary from hash keys to frames, in insertion order. The
  scripts tell artwork frames (class \<^verbatim>\<open>APIC\<close>, hash key \<^verbatim>\<open>"APIC:" + desc\<close>) from all
  others; of the others they read the first text of \<^verbatim>\<open>TPE1\<close> and \<^verbatim>\<open>TALB\<close>
  (a text frame carries its frame id, its first text and the further texts).
\<close>

datatype frame =
    APIC (encoding: nat) (mime: string) (pic_type: nat) (desc: string) (data: content)
  | TextFrame string string "string list"

type_synonym id3 = "(string \<times> frame) list"

datatype filedata = Plain content | Audio id3

datatype error =
    FileNotFoundError | UnidentifiedImageError | ValueError | OSError
  | ID3NoHeaderError | HTTPError

text \<open>Every \<^verbatim>\<open>print\<close> of the scripts is one message.\<close>

datatype msg =
    CoverNotFound string | CoverEmpty string | FoundCover string string
  | Converting string | ConvertedSaved string | CoverInvalid string
  | ResolutionError string | AlreadySmaller string | CreatedResized string
  | ResizeFailed string | Processing string | FoundEmbedded int int
  | EmbeddedHigherOrEqual | RemovedArtwork string | EmbeddedArtwork string
  | ErrorProcessing string
  | NoMp3Found string | Exported string string | CoverNotFoundExporting string
  | CouldNotExport string | CoverAlreadyExists string
  | SkippingCoverExists string | ProcessingFolder string string string
  | SkippingLastfm | ArtworkSaved string string string | FailedDownload string string
  | NoArtworkFound string string | ProcessingArtist string
  | Usage | NotADirectory string
  | FailedReadID3 string | FailedItunes | FailedMusicBrainz | FailedCoverArtArchive
  | FailedLastfm | NotAnImage string | ArtworkSavedTo string | FailedDownloadOf string

text \<open>The network calls of \<^verbatim>\<open>id3tocovr.py\<close>, by the service they reach.\<close>

datatype provider = MusicBrainz | CoverArtArchive | ITunes | LastFm | Download

text \<open>
  The world the scripts run in: the regular files by path, the enumeration
  \<^verbatim>\<open>os.listdir\<close> returns for a directory (in the order the file system gives),
  \<^verbatim>\<open>os.path.isdir\<close>, the pairs \<^verbatim>\<open>(root, dirs)\<close> that \<^verbatim>\<open>os.walk\<close> yields, what
  has been printed, the lines appended to the log file, and the network calls made.
\<close>

record world =
  files :: "string \<rightharpoonup> filedata"
  listdir :: "string \<Rightarrow> string list"
  isdir :: "string \<Rightarrow> bool"
  walk :: "string \<Rightarrow> (string \<times> string list) list"
  out :: "msg list"
  logged :: "msg list"
  requests :: "provider list"

definition say :: "msg \<Rightarrow> world \<Rightarrow> world" where
  "say m w = w\<lparr>out := out w @ [m]\<rparr>"

definition startswith :: "string \<Rightarrow> string \<Rightarrow> bool" where
  "startswith s p = prefix p s"

definition endswith :: "string \<Rightarrow> string \<Rightarrow> bool" where
  "endswith s p = suffix p s"

text \<open>\<^verbatim>\<open>os.path.join\<close> of two components (POSIX).\<close>

definition path_join :: "string \<Rightarrow> string \<Rightarrow> string" where
  "path_join a b =
     (if startswith b ''/'' then b
      else if a = [] \<or> endswith a ''/'' then a @ b
      else a @ ''/'' @ b)"

text \<open>
  Writing a file in a directory: the path gets the bytes; a name the directory did not
  list yet joins its enumeration.
\<close>

definition write_file :: "string \<Rightarrow> string \<Rightarrow> filedata \<Rightarrow> world \<Rightarrow> world" where
  "write_file dir name d w =
     w\<lparr>files := (files w)(path_join dir name \<mapsto> d),
       listdir := (listdir w)(dir :=
         (if name \<in> set (listdir w dir) then listdir w dir else listdir w dir @ [name]))\<rparr>"

section \<open>Pillow and mutagen, as far as the scripts use them\<close>

definition decode :: "content \<Rightarrow> error + (string \<times> image)" where
  "decode c = (case c of Encoded fmt img \<Rightarrow> Inr (fmt, img) | _ \<Rightarrow> Inl UnidentifiedImageError)"

text \<open>\<^verbatim>\<open>Image.open(path)\<close>: the file must exist and hold bytes that Pillow identifies.\<close>

definition image_open :: "world \<Rightarrow> string \<Rightarrow> error + (string \<times> image)" where
  "image_open w p =
     (case files w p of
        None \<Rightarrow> Inl FileNotFoundError
      | Some (Plain c) \<Rightarrow> decode c
      | Some (Audio t) \<Rightarrow> Inl UnidentifiedImageError)"

text \<open>\<^verbatim>\<open>img.convert(m)\<close> loads the pixels.\<close>

definition convert :: "image \<Rightarrow> string \<Rightarrow> error + image" where
  "convert img m = (if loads img then Inr (img\<lparr>mode := m\<rparr>) else Inl OSError)"

text \<open>
  Lines 66 and 67 of \<^verbatim>\<open>create_temp_cover\<close>, and lines 118 and 119 of
  \<^verbatim>\<open>process_folder\<close>: an image in mode \<^verbatim>\<open>RGBA\<close> or \<^verbatim>\<open>P\<close> is converted to \<^verbatim>\<open>RGB\<close>.
\<close>

definition to_rgb :: "image \<Rightarrow> error + image" where
  "to_rgb img = (if mode img \<in> set [''RGBA'', ''P''] then convert img ''RGB'' else Inr img)"

text \<open>
  \<^verbatim>\<open>img.resize((w, h))\<close> loads the pixels; Pillow refuses a size below one pixel.
\<close>

definition resize :: "image \<Rightarrow> int \<times> int \<Rightarrow> error + image" where
  "resize img sz =
     (if \<not> loads img then Inl OSError
      else if fst sz < 1 \<or> snd sz < 1 then Inl ValueError
      else Inr (img\<lparr>width := fst sz, height := snd sz\<rparr>))"

text \<open>
  Pillow's JPEG writer refuses an empty image with \<^verbatim>\<open>ValueError\<close>; it accepts the
  modes of its \<^verbatim>\<open>RAWMODE\<close> table and refuses every other mode with \<^verbatim>\<open>OSError\<close>; the
  encoder refuses a width or a height above 65500 pixels with \<^verbatim>\<open>OSError\<close>. A JPEG
  file reads back as \<^verbatim>\<open>L\<close>, \<^verbatim>\<open>RGB\<close> or \<^verbatim>\<open>CMYK\<close>.
\<close>

definition jpeg_modes :: "string list" where
  "jpeg_modes = [''1'', ''L'', ''RGB'', ''RGBX'', ''CMYK'', ''YCbCr'']"

definition jpeg_writer_accepts :: "image \<Rightarrow> bool" where
  "jpeg_writer_accepts img \<longleftrightarrow>
     1 \<le> width img \<and> 1 \<le> height img \<and> mode img \<in> set jpeg_modes
     \<and> width img \<le> 65500 \<and> height img \<le> 65500"

definition jpeg_read_mode :: "string \<Rightarrow> string" where
  "jpeg_read_mode m =
     (if m = ''1'' \<or> m = ''L'' then ''L'' else if m = ''CMYK'' then ''CMYK'' else ''RGB'')"

definition temp_dir :: string where
  "temp_dir = ''/tmp''"

definition temp_name :: string where
  "temp_name = ''temp_cover.jpg''"

definition temp_path :: string where
  "temp_path = ''/tmp/temp_cover.jpg''"

text \<open>
  \<^verbatim>\<open>img.save("/tmp/temp_cover.jpg")\<close>, with or without \<^verbatim>\<open>format="JPEG"\<close>: the
  extension selects the JPEG writer as well. Pillow loads the pixels first, and an
  image that does not load raises before the file is touched. Then it opens the file
  for writing and runs the writer; when the writer refuses the image, a file that
  existed is left truncated and a file that Pillow created is removed again.
\<close>

definition save_temp :: "image \<Rightarrow> world \<Rightarrow> (error + unit) \<times> world" where
  "save_temp img w =
     (if \<not> loads img then (Inl OSError, w)
      else if jpeg_writer_accepts img
      then (Inr (), write_file temp_dir temp_name
                      (Plain (Encoded ''JPEG'' (img\<lparr>mode := jpeg_read_mode (mode img)\<rparr>))) w)
      else (Inl (if width img < 1 \<or> height img < 1 then ValueError else OSError),
            case files w temp_path of
              None \<Rightarrow> w
            | Some d \<Rightarrow> write_file temp_dir temp_name (Plain Empty) w))"

text \<open>\<^verbatim>\<open>ID3(path)\<close>: a file without an ID3 header raises.\<close>

definition id3_load :: "world \<Rightarrow> string \<Rightarrow> error + id3" where
  "id3_load w p =
     (case files w p of
        None \<Rightarrow> Inl FileNotFoundError
      | Some (Plain c) \<Rightarrow> Inl ID3NoHeaderError
      | Some (Audio t) \<Rightarrow> Inr t)"

text \<open>\<^verbatim>\<open>open(path, "rb").read()\<close>.\<close>

definition read_bytes :: "world \<Rightarrow> string \<Rightarrow> error + content" where
  "read_bytes w p =
     (case files w p of
        None \<Rightarrow> Inl FileNotFoundError
      | Some (Plain c) \<Rightarrow> Inr c
      | Some (Audio t) \<Rightarrow> Inr Undecodable)"

text \<open>Python's \<^verbatim>\<open>d[k] = v\<close> on an insertion-ordered dictionary.\<close>

fun dict_set :: "string \<Rightarrow> frame \<Rightarrow> id3 \<Rightarrow> id3" where
  "dict_set k v [] = [(k, v)]"
| "dict_set k v ((k', v') # t) = (if k' = k then (k, v) # t else (k', v') # dict_set k v t)"

fun HashKey :: "frame \<Rightarrow> string" where
  "HashKey (APIC e m t d c) = ''APIC:'' @ d"
| "HashKey (TextFrame fid txt rest) = fid"

fun is_APIC :: "frame \<Rightarrow> bool" where
  "is_APIC (APIC e m t d c) = True"
| "is_APIC (TextFrame fid txt rest) = False"

section \<open>embed-artwork.py\<close>

definition check_cover_resolution :: "world \<Rightarrow> string \<Rightarrow> error + (int \<times> int)" where
  "check_cover_resolution w cover_path =
     (case image_open w cover_path of
        Inl e \<Rightarrow> Inl e
      | Inr (fmt, img) \<Rightarrow> Inr (width img, height img))"

definition create_temp_cover :: "string \<Rightarrow> int \<Rightarrow> world \<Rightarrow> (error + string) \<times> world" where
  "create_temp_cover original_cover_path temp_res w =
     (case image_open w original_cover_path of
        Inl e \<Rightarrow> (Inl e, w)
      | Inr (fmt, img0) \<Rightarrow>
          (case to_rgb img0 of
             Inl e \<Rightarrow> (Inl e, w)
           | Inr img \<Rightarrow>
               (case (if width img \<ge> temp_res \<and> height img \<ge> temp_res
                      then resize img (temp_res, temp_res) else Inr img) of
                  Inl e \<Rightarrow> (Inl e, w)
                | Inr img' \<Rightarrow>
                    (case save_temp img' w of
                       (Inl e, w') \<Rightarrow> (Inl e, w')
                     | (Inr u, w') \<Rightarrow> (Inr temp_path, w')))))"

fun get_embedded_artwork_resolution :: "id3 \<Rightarrow> error + (int \<times> int) option" where
  "get_embedded_artwork_resolution [] = Inr None"
| "get_embedded_artwork_resolution ((k, tag) # rest) =
     (if is_APIC tag
      then (case decode (data tag) of
              Inl e \<Rightarrow> Inl e
            | Inr (fmt, img) \<Rightarrow> Inr (Some (width img, height img)))
      else get_embedded_artwork_resolution rest)"

text \<open>
  \<^verbatim>\<open>remove_artwork\<close> deletes every key that starts with \<^verbatim>\<open>"APIC"\<close> and prints one line
  for each; the model returns the tag and the world (the flag \<^verbatim>\<open>artwork_removed\<close> is
  not read by the caller).
\<close>

fun remove_artwork :: "string \<Rightarrow> id3 \<Rightarrow> world \<Rightarrow> id3 \<times> world" where
  "remove_artwork filename [] w = ([], w)"
| "remove_artwork filename ((k, tag) # rest) w =
     (if startswith k ''APIC''
      then remove_artwork filename rest (say (RemovedArtwork filename) w)
      else (case remove_artwork filename rest w of (t, w') \<Rightarrow> ((k, tag) # t, w')))"

definition new_cover_frame :: "content \<Rightarrow> frame" where
  "new_cover_frame cover_data = APIC 3 ''image/jpeg'' 3 ''Cover'' cover_data"

text \<open>Lines 172 to 186 of \<^verbatim>\<open>process_folder\<close>: remove, read the cover, add, save.\<close>

definition replace_artwork :: "string \<Rightarrow> string \<Rightarrow> id3 \<Rightarrow> world \<Rightarrow> world" where
  "replace_artwork temp_cover_path music_path audio_file w =
     (case remove_artwork music_path audio_file w of
        (stripped, w1) \<Rightarrow>
          (case read_bytes w1 temp_cover_path of
             Inl e \<Rightarrow> say (ErrorProcessing music_path) w1
           | Inr cover_data \<Rightarrow>
               let tagged = dict_set (HashKey (new_cover_frame cover_data))
                              (new_cover_frame cover_data) stripped
               in say (EmbeddedArtwork music_path)
                    (w1\<lparr>files := (files w1)(music_path \<mapsto> Audio tagged)\<rparr>)))"

text \<open>The body of the loop over the music files (lines 153 to 188).\<close>

definition embed_file :: "string \<Rightarrow> string \<Rightarrow> string \<Rightarrow> world \<Rightarrow> world" where
  "embed_file temp_cover_path folder_path music_file w0 =
     (let music_path = path_join folder_path music_file;
          w = say (Processing music_path) w0
      in case id3_load w music_path of
           Inl e \<Rightarrow> say (ErrorProcessing music_path) w
         | Inr audio_file \<Rightarrow>
             (case get_embedded_artwork_resolution audio_file of
                Inl e \<Rightarrow> say (ErrorProcessing music_path) w
              | Inr None \<Rightarrow> replace_artwork temp_cover_path music_path audio_file w
              | Inr (Some (embedded_width, embedded_height)) \<Rightarrow>
                  let w1 = say (FoundEmbedded embedded_width embedded_height) w in
                  (case image_open w1 temp_cover_path of
                     Inl e \<Rightarrow> say (ErrorProcessing music_path) w1
                   | Inr (fmt, new_artwork) \<Rightarrow>
                       if embedded_width \<ge> width new_artwork
                          \<and> embedded_height \<ge> height new_artwork
                       then say EmbeddedHigherOrEqual w1
                       else replace_artwork temp_cover_path music_path audio_file w1)))"

fun embed_files :: "string \<Rightarrow> string \<Rightarrow> string list \<Rightarrow> world \<Rightarrow> world" where
  "embed_files temp_cover_path folder_path [] w = w"
| "embed_files temp_cover_path folder_path (music_file # rest) w =
     embed_files temp_cover_path folder_path rest
       (embed_file temp_cover_path folder_path music_file w)"

definition music_files_of :: "world \<Rightarrow> string \<Rightarrow> string list" where
  "music_files_of w folder_path = filter (\<lambda>f. endswith f ''.mp3'') (listdir w folder_path)"

text \<open>
  Lines 107 to 127 of \<^verbatim>\<open>process_folder\<close>: verify the cover and convert a cover that
  is not JPEG. The result is the value of \<^verbatim>\<open>temp_cover_path\<close>, or the exception that
  makes the folder skipped.
\<close>

definition verify_cover :: "string \<Rightarrow> string \<Rightarrow> world \<Rightarrow> (error + string) \<times> world" where
  "verify_cover folder_path cover_path w =
     (case image_open w cover_path of
        Inl e \<Rightarrow> (Inl e, w)
      | Inr (img_format, img0) \<Rightarrow>
          let w1 = say (FoundCover folder_path img_format) w in
          if img_format \<noteq> ''JPEG''
          then
            let w2 = say (Converting img_format) w1
            in (case to_rgb img0 of
                  Inl e \<Rightarrow> (Inl e, w2)
                | Inr img \<Rightarrow>
                    (case save_temp img w2 of
                       (Inl e, w3) \<Rightarrow> (Inl e, w3)
                     | (Inr u, w3) \<Rightarrow> (Inr temp_path, say (ConvertedSaved temp_path) w3)))
          else (Inr cover_path, w1))"

text \<open>
  Lines 136 to 147: the choice of the cover to embed, from the size of \<^verbatim>\<open>cover.jpg\<close>.
\<close>

definition choose_cover ::
  "int \<Rightarrow> string \<Rightarrow> string \<Rightarrow> int \<Rightarrow> int \<Rightarrow> world \<Rightarrow> (error + string) \<times> world" where
  "choose_cover TEMP_RES folder_path cover_path cover_width cover_height w =
     (if cover_width < TEMP_RES \<and> cover_height < TEMP_RES
      then (Inr cover_path, say (AlreadySmaller folder_path) w)
      else (case create_temp_cover cover_path TEMP_RES w of
              (Inl e, w') \<Rightarrow> (Inl e, say (ResizeFailed folder_path) w')
            | (Inr p, w') \<Rightarrow> (Inr p, say (CreatedResized p) w')))"

text \<open>
  Lines 96 to 147: everything \<^verbatim>\<open>process_folder\<close> does before it lists the music files.
  \<^verbatim>\<open>Inl\<close> is an early \<^verbatim>\<open>return\<close>.
\<close>

definition prepare_cover :: "int \<Rightarrow> string \<Rightarrow> world \<Rightarrow> (error + string) \<times> world" where
  "prepare_cover TEMP_RES folder_path w =
     (let cover_path = path_join folder_path ''cover.jpg'' in
      case files w cover_path of
        None \<Rightarrow> (Inl FileNotFoundError, say (CoverNotFound folder_path) w)
      | Some d \<Rightarrow>
          if d = Plain Empty then (Inl ValueError, say (CoverEmpty folder_path) w)
          else (case verify_cover folder_path cover_path w of
                  (Inl e, w1) \<Rightarrow> (Inl e, say (CoverInvalid folder_path) w1)
                | (Inr converted, w1) \<Rightarrow>
                    (case check_cover_resolution w1 cover_path of
                       Inl e \<Rightarrow> (Inl e, say (ResolutionError folder_path) w1)
                     | Inr (cover_width, cover_height) \<Rightarrow>
                         choose_cover TEMP_RES folder_path cover_path
                           cover_width cover_height w1)))"

definition process_folder_embed :: "int \<Rightarrow> string \<Rightarrow> world \<Rightarrow> world" where
  "process_folder_embed TEMP_RES folder_path w =
     (case prepare_cover TEMP_RES folder_path w of
        (Inl e, w1) \<Rightarrow> w1
      | (Inr temp_cover_path, w1) \<Rightarrow>
          embed_files temp_cover_path folder_path (music_files_of w1 folder_path) w1)"

text \<open>
  \<^verbatim>\<open>embed_artwork_in_folder\<close>: with \<^verbatim>\<open>recursive\<close>, every directory name of every
  \<^verbatim>\<open>(root, dirs)\<close> that \<^verbatim>\<open>os.walk\<close> yields is processed.
\<close>

definition embed_artwork_in_folder :: "int \<Rightarrow> string \<Rightarrow> bool \<Rightarrow> world \<Rightarrow> world" where
  "embed_artwork_in_folder TEMP_RES folder_path recursive w =
     (if recursive
      then foldl (\<lambda>w1 (root, dirs).
                    foldl (\<lambda>w2 dir_name.
                             process_folder_embed TEMP_RES (path_join root dir_name) w2) w1 dirs)
             w (walk w folder_path)
      else process_folder_embed TEMP_RES folder_path w)"

definition process_cd_folders_embed :: "int \<Rightarrow> string \<Rightarrow> world \<Rightarrow> world" where
  "process_cd_folders_embed TEMP_RES ROOT_MUSIC_DIR w =
     foldl (\<lambda>w1 (root, dirs).
              foldl (\<lambda>w2 dir_name.
                       if startswith dir_name ''CD ''
                       then embed_artwork_in_folder TEMP_RES (path_join root dir_name) False w2
                       else w2) w1 dirs)
       w (walk w ROOT_MUSIC_DIR)"

text \<open>
  The parsed command line: \<^verbatim>\<open>-a\<close>, \<^verbatim>\<open>-c\<close> and \<^verbatim>\<open>-i\<close>. Python takes \<^verbatim>\<open>None\<close> and
  the empty string for false.
\<close>

record args =
  all :: bool
  cd :: bool
  input :: "string option"

definition truthy :: "string option \<Rightarrow> bool" where
  "truthy v = (case v of None \<Rightarrow> False | Some s \<Rightarrow> s \<noteq> [])"

datatype outcome = Exit nat | Done | Raised error

definition main_embed :: "int \<Rightarrow> string \<Rightarrow> args \<Rightarrow> world \<Rightarrow> outcome \<times> world" where
  "main_embed TEMP_RES ROOT_MUSIC_DIR a w =
     (if \<not> (all a \<or> cd a \<or> truthy (input a)) then (Exit 1, say Usage w)
      else if truthy (input a) then
        (let p = (case input a of Some s \<Rightarrow> s | None \<Rightarrow> []) in
         if \<not> isdir w p then (Exit 1, say (NotADirectory p) w)
         else (Done, embed_artwork_in_folder TEMP_RES p False w))
      else if all a then (Done, embed_artwork_in_folder TEMP_RES ROOT_MUSIC_DIR True w)
      else if cd a then (Done, process_cd_folders_embed TEMP_RES ROOT_MUSIC_DIR w)
      else (Done, w))"

section \<open>export-coverart.py\<close>

text \<open>Lines 57 to 68 of \<^verbatim>\<open>export_cover_from_mp3\<close>, once \<^verbatim>\<open>music_files[0]\<close> is chosen.\<close>

definition export_from :: "string \<Rightarrow> string \<Rightarrow> world \<Rightarrow> bool \<times> world" where
  "export_from folder_path f w =
     (let first_mp3 = path_join folder_path f in
      case id3_load w first_mp3 of
        Inl e \<Rightarrow> (False, say (ErrorProcessing first_mp3) w)
      | Inr audio_file \<Rightarrow>
          (case find (\<lambda>(k, tag). is_APIC tag) audio_file of
             None \<Rightarrow> (False, w)
           | Some (k, tag) \<Rightarrow>
               (True, say (Exported first_mp3 folder_path)
                        (write_file folder_path ''cover.jpg'' (Plain (data tag)) w))))"

definition export_cover_from_mp3 :: "string \<Rightarrow> world \<Rightarrow> bool \<times> world" where
  "export_cover_from_mp3 folder_path w =
     (case music_files_of w folder_path of
        [] \<Rightarrow> (False, say (NoMp3Found folder_path) w)
      | f # others \<Rightarrow> export_from folder_path f w)"

definition process_folder_export :: "string \<Rightarrow> world \<Rightarrow> world" where
  "process_folder_export folder_path w =
     (let cover_path = path_join folder_path ''cover.jpg'' in
      if files w cover_path = None
      then (case export_cover_from_mp3 folder_path (say (CoverNotFoundExporting folder_path) w) of
              (ok, w1) \<Rightarrow> if \<not> ok then say (CouldNotExport folder_path) w1 else w1)
      else say (CoverAlreadyExists folder_path) w)"

definition process_cd_folders_export :: "string \<Rightarrow> world \<Rightarrow> world" where
  "process_cd_folders_export ROOT_MUSIC_DIR w =
     foldl (\<lambda>w1 (root, dirs).
              foldl (\<lambda>w2 dir_name.
                       if startswith dir_name ''CD ''
                       then process_folder_export (path_join root dir_name) w2
                       else w2) w1 dirs)
       w (walk w ROOT_MUSIC_DIR)"

definition main_export :: "string \<Rightarrow> args \<Rightarrow> world \<Rightarrow> outcome \<times> world" where
  "main_export ROOT_MUSIC_DIR a w =
     (if \<not> (all a \<or> cd a \<or> truthy (input a)) then (Exit 1, say Usage w)
      else if truthy (input a) then
        (let p = (case input a of Some s \<Rightarrow> s | None \<Rightarrow> []) in
         if \<not> isdir w p then (Exit 1, say (NotADirectory p) w)
         else (Done, process_folder_export p w))
      else if all a then
        (Done, foldl (\<lambda>w1 (root, dirs).
                        foldl (\<lambda>w2 dir_name. process_folder_export (path_join root dir_name) w2)
                          w1 dirs)
                 w (walk w ROOT_MUSIC_DIR))
      else if cd a then (Done, process_cd_folders_export ROOT_MUSIC_DIR w)
      else (Done, w))"

section \<open>id3tocovr.py\<close>

text \<open>
  The settings the functions below read, and the answers of the network, which are
  inputs of the program: the release ids of \<^verbatim>\<open>results["release-list"]\<close> (or no such
  key), the \<^verbatim>\<open>(front, image)\<close> entries of the Cover Art Archive listing (or no
  \<^verbatim>\<open>"images"\<close> key), the \<^verbatim>\<open>(artist_name, artwork_url_600)\<close> pairs of the iTunes
  search, the Last.fm cover URL, and the HTTP response to a download. Each call may
  raise instead.
\<close>

record settings =
  USE_MUSICBRAINZ :: bool
  USE_HIRES_PRIORITY :: bool
  NO_LOW_RES :: bool

text \<open>
  An HTTP response: whether the status is a success, the \<^verbatim>\<open>Content-Type\<close> header, the
  bytes received, and whether the stream ended without an exception.
\<close>

datatype http_result =
    ConnectionFailed
  | Response (status_ok: bool) (content_type: "string option") (body: content) (complete: bool)

record net =
  search_releases :: "string \<Rightarrow> string \<Rightarrow> error + string list option"
  caa_release :: "string \<Rightarrow> error + (bool \<times> string) list option"
  search_album :: "string \<Rightarrow> error + (string \<times> string) list"
  get_cover_image :: "string \<Rightarrow> string \<Rightarrow> error + string option"
  http_get :: "string \<Rightarrow> http_result"

definition log_line :: "msg \<Rightarrow> world \<Rightarrow> world" where
  "log_line m w = w\<lparr>logged := logged w @ [m]\<rparr>"

definition request :: "provider \<Rightarrow> world \<Rightarrow> world" where
  "request p w = w\<lparr>requests := requests w @ [p]\<rparr>"

text \<open>\<^verbatim>\<open>str.lower\<close> on the ASCII letters.\<close>

definition lower_char :: "char \<Rightarrow> char" where
  "lower_char c =
     (case map_of (zip ''ABCDEFGHIJKLMNOPQRSTUVWXYZ'' ''abcdefghijklmnopqrstuvwxyz'') c of
        None \<Rightarrow> c
      | Some l \<Rightarrow> l)"

definition lower :: "string \<Rightarrow> string" where
  "lower s = map lower_char s"

text \<open>
  \<^verbatim>\<open>get_artist_album_from_id3\<close> catches mutagen's \<^verbatim>\<open>ID3Error\<close> only; a file that
  cannot be opened raises past it. mutagen files every frame under its own hash key,
  so the frame under \<^verbatim>\<open>TPE1\<close> or \<^verbatim>\<open>TALB\<close> is a text frame.
\<close>

definition tag_text :: "id3 \<Rightarrow> string \<Rightarrow> string \<Rightarrow> string" where
  "tag_text audio key unknown =
     (case map_of audio key of
        Some (TextFrame fid txt rest) \<Rightarrow> txt
      | _ \<Rightarrow> unknown)"

definition get_artist_album_from_id3 ::
  "string \<Rightarrow> world \<Rightarrow> (error + (string \<times> string)) \<times> world" where
  "get_artist_album_from_id3 file_path w =
     (case id3_load w file_path of
        Inr audio \<Rightarrow>
          (Inr (tag_text audio ''TPE1'' ''Unknown Artist'',
                tag_text audio ''TALB'' ''Unknown Album''), w)
      | Inl e \<Rightarrow>
          if e = ID3NoHeaderError
          then (Inr (''Unknown Artist'', ''Unknown Album''), log_line (FailedReadID3 file_path) w)
          else (Inl e, w))"

definition fetch_itunes_artwork ::
  "net \<Rightarrow> string \<Rightarrow> string \<Rightarrow> world \<Rightarrow> string option \<times> world" where
  "fetch_itunes_artwork n artist album w0 =
     (let w = request ITunes w0 in
      case search_album n album of
        Inl e \<Rightarrow> (None, log_line FailedItunes w)
      | Inr results \<Rightarrow>
          (case find (\<lambda>(artist_name, url). lower artist_name = lower artist) results of
             None \<Rightarrow> (None, w)
           | Some (artist_name, url) \<Rightarrow> (Some url, w)))"

definition fetch_musicbrainz_release_id ::
  "net \<Rightarrow> string \<Rightarrow> string \<Rightarrow> world \<Rightarrow> string option \<times> world" where
  "fetch_musicbrainz_release_id n artist album w0 =
     (let w = request MusicBrainz w0 in
      case search_releases n artist album of
        Inl e \<Rightarrow> (None, log_line FailedMusicBrainz w)
      | Inr None \<Rightarrow> (None, w)
      | Inr (Some []) \<Rightarrow> (None, log_line FailedMusicBrainz w)
      | Inr (Some (release_id # others)) \<Rightarrow> (Some release_id, w))"

definition fetch_caa_artwork :: "net \<Rightarrow> string \<Rightarrow> world \<Rightarrow> string option \<times> world" where
  "fetch_caa_artwork n release_id w0 =
     (let w = request CoverArtArchive w0 in
      case caa_release n release_id of
        Inl e \<Rightarrow> (None, log_line FailedCoverArtArchive w)
      | Inr None \<Rightarrow> (None, w)
      | Inr (Some images) \<Rightarrow>
          (case find (\<lambda>(front, url). front) images of
             None \<Rightarrow> (None, w)
           | Some (front, url) \<Rightarrow> (Some url, w)))"

definition fetch_lastfm_artwork ::
  "settings \<Rightarrow> net \<Rightarrow> string \<Rightarrow> string \<Rightarrow> world \<Rightarrow> string option \<times> world" where
  "fetch_lastfm_artwork cfg n artist album w =
     (if NO_LOW_RES cfg then (None, log_line SkippingLastfm (say SkippingLastfm w))
      else
        (case get_cover_image n artist album of
           Inl e \<Rightarrow> (None, log_line FailedLastfm (request LastFm w))
         | Inr url \<Rightarrow> (url, request LastFm w)))"

text \<open>
  \<^verbatim>\<open>download_artwork(url, save_path)\<close>, with \<^verbatim>\<open>save_path\<close> given as the directory and
  the file name that \<^verbatim>\<open>os.path.join\<close> puts together. The file is opened for writing
  once the content type has passed; a stream that breaks leaves what was received.
\<close>

definition download_artwork ::
  "net \<Rightarrow> string \<Rightarrow> string \<Rightarrow> string \<Rightarrow> world \<Rightarrow> bool \<times> world" where
  "download_artwork n url dir name w0 =
     (let w = request Download w0 in
      case http_get n url of
        ConnectionFailed \<Rightarrow> (False, log_line (FailedDownloadOf url) w)
      | Response ok ctype received finished \<Rightarrow>
          if \<not> ok then (False, log_line (FailedDownloadOf url) w)
          else if \<not> sublist ''image'' (case ctype of None \<Rightarrow> [] | Some c \<Rightarrow> c)
          then (False, log_line (NotAnImage url) w)
          else
            (let w1 = write_file dir name (Plain received) w in
             if finished then (True, log_line (ArtworkSavedTo (path_join dir name)) w1)
             else (False, log_line (FailedDownloadOf url) w1)))"

text \<open>Lines 241 to 244 of \<^verbatim>\<open>fetch_artwork_for_folder\<close>: MusicBrainz, then its archive.\<close>

definition musicbrainz_artwork ::
  "settings \<Rightarrow> net \<Rightarrow> string \<Rightarrow> string \<Rightarrow> world \<Rightarrow> string option \<times> world" where
  "musicbrainz_artwork cfg n artist album w =
     (if USE_MUSICBRAINZ cfg
      then (case fetch_musicbrainz_release_id n artist album w of
              (release_id, w1) \<Rightarrow>
                if truthy release_id
                then fetch_caa_artwork n (case release_id of Some r \<Rightarrow> r | None \<Rightarrow> []) w1
                else (None, w1))
      else (None, w))"

text \<open>Lines 239 to 250: the sources, in order.\<close>

definition resolve_artwork ::
  "settings \<Rightarrow> net \<Rightarrow> string \<Rightarrow> string \<Rightarrow> world \<Rightarrow> string option \<times> world" where
  "resolve_artwork cfg n artist album w =
     (case musicbrainz_artwork cfg n artist album w of
        (url1, w2) \<Rightarrow>
          (case (if \<not> truthy url1 \<and> USE_HIRES_PRIORITY cfg
                 then fetch_itunes_artwork n artist album w2 else (url1, w2)) of
             (url2, w3) \<Rightarrow>
               if \<not> truthy url2 \<and> \<not> NO_LOW_RES cfg
               then fetch_lastfm_artwork cfg n artist album w3 else (url2, w3)))"

text \<open>Lines 235 to 262 of \<^verbatim>\<open>fetch_artwork_for_folder\<close>, once \<^verbatim>\<open>mp3_files[0]\<close> is chosen.\<close>

definition fetch_from ::
  "settings \<Rightarrow> net \<Rightarrow> string \<Rightarrow> string \<Rightarrow> world \<Rightarrow> (error + unit) \<times> world" where
  "fetch_from cfg n folder_path f w =
     (let cover_path = path_join folder_path ''cover.jpg'';
          first_mp3 = path_join folder_path f
      in case get_artist_album_from_id3 first_mp3 w of
           (Inl e, w1) \<Rightarrow> (Inl e, w1)
         | (Inr (artist, album), w1) \<Rightarrow>
             (case resolve_artwork cfg n artist album
                     (say (ProcessingFolder folder_path artist album) w1) of
                (artwork_url, w2) \<Rightarrow>
                  if truthy artwork_url
                  then (case download_artwork n
                               (case artwork_url of Some u \<Rightarrow> u | None \<Rightarrow> [])
                               folder_path ''cover.jpg'' w2 of
                          (ok, w3) \<Rightarrow>
                            if ok
                            then (Inr (), log_line (ArtworkSaved artist album cover_path)
                                            (say (ArtworkSaved artist album cover_path) w3))
                            else (Inr (), log_line (FailedDownload artist album)
                                            (say (FailedDownload artist album) w3)))
                  else (Inr (), log_line (NoArtworkFound artist album)
                                  (say (NoArtworkFound artist album) w2))))"

definition fetch_artwork_for_folder ::
  "settings \<Rightarrow> net \<Rightarrow> string \<Rightarrow> world \<Rightarrow> (error + unit) \<times> world" where
  "fetch_artwork_for_folder cfg n folder_path w =
     (let cover_path = path_join folder_path ''cover.jpg'' in
      if files w cover_path \<noteq> None
      then (Inr (), log_line (SkippingCoverExists folder_path)
                      (say (SkippingCoverExists folder_path) w))
      else
        (case music_files_of w folder_path of
           [] \<Rightarrow> (Inr (), log_line (NoMp3Found folder_path) (say (NoMp3Found folder_path) w))
         | f # others \<Rightarrow> fetch_from cfg n folder_path f w))"

text \<open>A \<^verbatim>\<open>for\<close> loop whose body may raise: the first exception ends it.\<close>

fun for_each ::
  "('a \<Rightarrow> world \<Rightarrow> (error + unit) \<times> world) \<Rightarrow> 'a list \<Rightarrow> world \<Rightarrow> (error + unit) \<times> world" where
  "for_each step [] w = (Inr (), w)"
| "for_each step (x # xs) w =
     (case step x w of
        (Inl e, w') \<Rightarrow> (Inl e, w')
      | (Inr u, w') \<Rightarrow> for_each step xs w')"

definition process_album ::
  "settings \<Rightarrow> net \<Rightarrow> bool \<Rightarrow> string \<Rightarrow> string \<Rightarrow> world \<Rightarrow> (error + unit) \<times> world" where
  "process_album cfg n process_cd_folders artist_path album_folder w =
     (let album_path = path_join artist_path album_folder in
      if \<not> isdir w album_path then (Inr (), w)
      else
        (let cd_folders = filter (\<lambda>f. isdir w (path_join album_path f)
                                        \<and> startswith (lower f) ''cd'') (listdir w album_path)
         in if process_cd_folders \<and> cd_folders \<noteq> []
            then for_each (\<lambda>cd_folder. fetch_artwork_for_folder cfg n
                                          (path_join album_path cd_folder)) cd_folders w
            else fetch_artwork_for_folder cfg n album_path w))"

definition process_folder_fetch ::
  "settings \<Rightarrow> net \<Rightarrow> string \<Rightarrow> bool \<Rightarrow> world \<Rightarrow> (error + unit) \<times> world" where
  "process_folder_fetch cfg n root_folder process_cd_folders w =
     (let artist_folders =
            sort (filter (\<lambda>f. isdir w (path_join root_folder f)) (listdir w root_folder))
      in for_each (\<lambda>artist_folder w1.
                     let artist_path = path_join root_folder artist_folder;
                         w2 = say (ProcessingArtist artist_folder) w1
                     in for_each (process_album cfg n process_cd_folders artist_path)
                          (listdir w2 artist_path) w2)
           artist_folders w)"

definition finish :: "(error + unit) \<times> world \<Rightarrow> outcome \<times> world" where
  "finish r = (case r of (Inl e, w) \<Rightarrow> (Raised e, w) | (Inr u, w) \<Rightarrow> (Done, w))"

definition main_fetch ::
  "settings \<Rightarrow> net \<Rightarrow> string \<Rightarrow> args \<Rightarrow> world \<Rightarrow> outcome \<times> world" where
  "main_fetch cfg n ROOT_MUSIC_DIR a w =
     (if \<not> (all a \<or> cd a \<or> truthy (input a)) then (Exit 1, say Usage w)
      else if truthy (input a) then
        (let p = (case input a of Some s \<Rightarrow> s | None \<Rightarrow> []) in
         if \<not> isdir w p then (Exit 1, say (NotADirectory p) w)
         else finish (fetch_artwork_for_folder cfg n p w))
      else if all a then
        (if \<not> isdir w ROOT_MUSIC_DIR then (Exit 1, say (NotADirectory ROOT_MUSIC_DIR) w)
         else finish (process_folder_fetch cfg n ROOT_MUSIC_DIR (cd a) w))
      else (Done, w))"

section \<open>Validity and concrete folders\<close>

text \<open>Bytes are a valid JPEG image when Pillow identifies and decodes them as JPEG.\<close>

definition is_jpeg :: "content \<Rightarrow> bool" where
  "is_jpeg c = (case c of Encoded fmt img \<Rightarrow> fmt = ''JPEG'' | _ \<Rightarrow> False)"

text \<open>
  The mode of an image once lines 66 and 67 (and 118 and 119) have converted \<^verbatim>\<open>RGBA\<close>
  and \<^verbatim>\<open>P\<close> to \<^verbatim>\<open>RGB\<close>.
\<close>

definition converted_mode :: "image \<Rightarrow> string" where
  "converted_mode img = (if mode img \<in> set [''RGBA'', ''P''] then ''RGB'' else mode img)"

text \<open>Small worlds on which the functions are evaluated below.\<close>

definition blank :: world where
  "blank = \<lparr>files = Map.empty, listdir = (\<lambda>d. []), isdir = (\<lambda>p. False),
             walk = (\<lambda>p. []), out = [], logged = [], requests = []\<rparr>"

definition jpeg :: "int \<Rightarrow> int \<Rightarrow> content" where
  "jpeg x y = Encoded ''JPEG'' \<lparr>mode = ''RGB'', width = x, height = y, loads = True\<rparr>"

definition png :: "int \<Rightarrow> int \<Rightarrow> content" where
  "png x y = Encoded ''PNG'' \<lparr>mode = ''RGB'', width = x, height = y, loads = True\<rparr>"

definition cover_tag :: "content \<Rightarrow> string \<times> frame" where
  "cover_tag c = (''APIC:Cover'', APIC 3 ''image/jpeg'' 3 ''Cover'' c)"

text \<open>One track with a 500 by 700 artwork, beside a 600 by 600 cover.\<close>

definition tall_art_folder :: world where
  "tall_art_folder =
     blank\<lparr>files := [''/m/a.mp3'' \<mapsto> Audio [cover_tag (jpeg 500 700)],
                      ''/m/cover.jpg'' \<mapsto> Plain (jpeg 600 600)],
           listdir := (\<lambda>d. if d = ''/m'' then [''a.mp3'', ''cover.jpg''] else [])\<rparr>"

text \<open>One track without artwork, beside a 300 by 300 PNG cover.\<close>

definition small_png_folder :: world where
  "small_png_folder =
     blank\<lparr>files := [''/m/a.mp3'' \<mapsto> Audio [],
                      ''/m/cover.jpg'' \<mapsto> Plain (png 300 300)],
           listdir := (\<lambda>d. if d = ''/m'' then [''a.mp3'', ''cover.jpg''] else [])\<rparr>"

text \<open>A folder that holds a cover and nothing else; a folder that holds one track.\<close>

definition cover_only :: "content \<Rightarrow> world" where
  "cover_only c =
     blank\<lparr>files := [''/m/cover.jpg'' \<mapsto> Plain c],
           listdir := (\<lambda>d. if d = ''/m'' then [''cover.jpg''] else [])\<rparr>"

definition art_folder :: "content \<Rightarrow> world" where
  "art_folder c =
     blank\<lparr>files := [''/m/a.mp3'' \<mapsto> Audio [cover_tag c]],
           listdir := (\<lambda>d. if d = ''/m'' then [''a.mp3''] else [])\<rparr>"

text \<open>A network on which every call fails, and one that serves a PNG image.\<close>

definition silent_net :: net where
  "silent_net = \<lparr>search_releases = (\<lambda>a b. Inl HTTPError), caa_release = (\<lambda>r. Inl HTTPError),
                  search_album = (\<lambda>a. Inl HTTPError), get_cover_image = (\<lambda>a b. Inl HTTPError),
                  http_get = (\<lambda>u. ConnectionFailed)\<rparr>"

definition png_net :: net where
  "png_net = silent_net\<lparr>http_get := (\<lambda>u. Response True (Some ''image/png'') (png 500 500) True)\<rparr>"

text \<open>The network calls made between two moments of a run.\<close>

definition asked :: "world \<Rightarrow> world \<Rightarrow> provider list" where
  "asked w w' = drop (length (requests w)) (requests w')"

text \<open>The calls that lines 241 to 244 make to MusicBrainz and its archive.\<close>

definition mb_calls :: "settings \<Rightarrow> net \<Rightarrow> string \<Rightarrow> string \<Rightarrow> provider list" where
  "mb_calls cfg n a b =
     (if USE_MUSICBRAINZ cfg
      then MusicBrainz # (if truthy (fst (fetch_musicbrainz_release_id n a b blank))
                          then [CoverArtArchive] else [])
      else [])"

text \<open>
  A network on which only iTunes answers, one on which MusicBrainz and the Cover Art
  Archive answer, and settings with every source enabled and low resolution refused.
\<close>

definition itunes_net :: net where
  "itunes_net = silent_net\<lparr>search_album := (\<lambda>a. Inr [(''Other'', ''http://i/other.jpg''),
                                                  (''The Band'', ''http://i/600.jpg'')])\<rparr>"

definition archive_net :: net where
  "archive_net = silent_net\<lparr>search_releases := (\<lambda>a b. Inr (Some [''rid''])),
       caa_release := (\<lambda>r. Inr (Some [(False, ''http://c/back''), (True, ''http://c/front'')]))\<rparr>"

definition both_on :: settings where
  "both_on = \<lparr>USE_MUSICBRAINZ = True, USE_HIRES_PRIORITY = True, NO_LOW_RES = True\<rparr>"

text \<open>
  Two tracks by different artists with different artwork, listed in a given order; and
  a library of one artist with one album of one disc, without any file.
\<close>

definition two_tracks :: "string list \<Rightarrow> world" where
  "two_tracks order =
     blank\<lparr>files := [''/m/a.mp3'' \<mapsto> Audio [(''TPE1'', TextFrame ''TPE1'' ''Artist A'' []),
                                              cover_tag (jpeg 100 100)],
                      ''/m/b.mp3'' \<mapsto> Audio [(''TPE1'', TextFrame ''TPE1'' ''Artist B'' []),
                                              cover_tag (jpeg 200 200)]],
           listdir := (\<lambda>d. if d = ''/m'' then order else [])\<rparr>"

definition library :: world where
  "library =
     blank\<lparr>listdir := (\<lambda>d. if d = ''/music'' then [''Artist'']
                            else if d = ''/music/Artist'' then [''Album'']
                            else if d = ''/music/Artist/Album'' then [''CD 1'']
                            else []),
           isdir := (\<lambda>p. p \<in> set [''/music'', ''/music/Artist'', ''/music/Artist/Album'',
                                      ''/music/Artist/Album/CD 1'']),
           walk := (\<lambda>p. if p = ''/music''
                         then [(''/music'', [''Artist'']), (''/music/Artist'', [''Album'']),
                               (''/music/Artist/Album'', [''CD 1'']),
                               (''/music/Artist/Album/CD 1'', [])]
                         else [])\<rparr>"

text \<open>
  Between two moments of a run, no file but the scratch file was written, no directory
  lists other MP3 files, and no "no MP3 files" message was printed.
\<close>

definition only_scratch_written :: "world \<Rightarrow> world \<Rightarrow> bool" where
  "only_scratch_written w w' \<longleftrightarrow>
     (\<forall>p. p \<noteq> temp_path \<longrightarrow> files w' p = files w p)
     \<and> (\<forall>d. music_files_of w' d = music_files_of w d)
     \<and> (\<forall>f. NoMp3Found f \<in> set (out w') \<longrightarrow> NoMp3Found f \<in> set (out w))"

section \<open>Basic facts\<close>

lemmas path_eval = path_join_def startswith_def endswith_def suffix_to_prefix

lemma files_say [simp]: "files (say m w) = files w"
  by (simp add: say_def)

lemma listdir_say [simp]: "listdir (say m w) = listdir w"
  by (simp add: say_def)

lemma image_open_say [simp]: "image_open (say m w) p = image_open w p"
  by (simp add: image_open_def)

lemma files_write_file:
  "files (write_file dir name d w) = (files w)(path_join dir name \<mapsto> d)"
  by (simp add: write_file_def)

lemma temp_path_join: "path_join temp_dir temp_name = temp_path"
  by (simp add: path_eval temp_dir_def temp_name_def temp_path_def)

lemma path_join_suffix: "suffix b (path_join a b)"
  by (simp add: path_join_def suffix_def)

text \<open>The cover of a folder is never the scratch file.\<close>

lemma cover_path_not_temp: "path_join folder ''cover.jpg'' \<noteq> temp_path"
proof
  assume eq: "path_join folder ''cover.jpg'' = temp_path"
  have t: "temp_path = ''/tmp/temp_'' @ ''cover.jpg''"
    by (simp add: temp_path_def)
  show False
  proof (cases "folder = [] \<or> endswith folder ''/''")
    case True
    then have "folder @ ''cover.jpg'' = ''/tmp/temp_'' @ ''cover.jpg''"
      using eq t by (simp add: path_join_def startswith_def)
    then have "folder = ''/tmp/temp_''" by simp
    then show False using True by (simp add: endswith_def suffix_to_prefix)
  next
    case False
    then have "(folder @ ''/'') @ ''cover.jpg'' = ''/tmp/temp_'' @ ''cover.jpg''"
      using eq t by (simp add: path_join_def startswith_def)
    then have "folder @ ''/'' = ''/tmp/temp_''"
      by (simp only: append_same_eq)
    then have "last (folder @ ''/'') = last ''/tmp/temp_''" by simp
    then show False by simp
  qed
qed

lemma remove_artwork_fst:
  "fst (remove_artwork f t w) = filter (\<lambda>(k, tag). \<not> startswith k ''APIC'') t"
  by (induction t arbitrary: w) (auto simp: split_beta)

lemma remove_artwork_files: "files (snd (remove_artwork f t w)) = files w"
  by (induction t arbitrary: w) (auto simp: split_beta)

lemma remove_artwork_listdir: "listdir (snd (remove_artwork f t w)) = listdir w"
  by (induction t arbitrary: w) (auto simp: split_beta)

lemma replace_artwork_files:
  assumes "files w temp_cover_path = Some (Plain c)"
  shows "files (replace_artwork temp_cover_path music_path audio_file w) =
         (files w)(music_path \<mapsto> Audio (dict_set ''APIC:Cover'' (new_cover_frame c)
            (filter (\<lambda>(k, tag). \<not> startswith k ''APIC'') audio_file)))"
proof -
  obtain stripped w1 where r: "remove_artwork music_path audio_file w = (stripped, w1)"
    by (cases "remove_artwork music_path audio_file w")
  have s: "stripped = filter (\<lambda>(k, tag). \<not> startswith k ''APIC'') audio_file"
    using remove_artwork_fst [of music_path audio_file w] r by simp
  have f: "files w1 = files w"
    using remove_artwork_files [of music_path audio_file w] r by simp
  show ?thesis
    using assms by (simp add: replace_artwork_def r s f read_bytes_def new_cover_frame_def)
qed

lemma check_cover_resolution_decodable:
  "files w p = Some (Plain (Encoded fmt img)) \<Longrightarrow>
   check_cover_resolution w p = Inr (width img, height img)"
  by (simp add: check_cover_resolution_def image_open_def decode_def)

section \<open>What the preparation of the cover leaves alone\<close>

lemma osw_refl: "only_scratch_written w w"
  by (simp add: only_scratch_written_def)

lemma osw_trans:
  "only_scratch_written w w1 \<Longrightarrow> only_scratch_written w1 w2 \<Longrightarrow> only_scratch_written w w2"
  by (simp add: only_scratch_written_def)

lemma osw_say:
  "(\<And>f. m \<noteq> NoMp3Found f) \<Longrightarrow> only_scratch_written w w' \<Longrightarrow>
   only_scratch_written w (say m w')"
  by (auto simp: only_scratch_written_def say_def music_files_of_def)

lemma temp_name_not_mp3: "\<not> endswith temp_name ''.mp3''"
  by (simp add: temp_name_def path_eval)

lemma osw_write_temp:
  "only_scratch_written w (write_file temp_dir temp_name d w)"
  using temp_name_not_mp3
  by (auto simp: only_scratch_written_def write_file_def temp_path_join music_files_of_def)

lemma osw_save_temp: "only_scratch_written w (snd (save_temp img w))"
  by (auto simp: save_temp_def osw_write_temp osw_refl split: option.splits)

lemma osw_create_temp_cover: "only_scratch_written w (snd (create_temp_cover p R w))"
  using osw_save_temp [of w]
  by (auto simp: create_temp_cover_def Let_def osw_refl split_beta
      split: sum.splits prod.splits)

lemma osw_verify_cover: "only_scratch_written w (snd (verify_cover folder p w))"
proof -
  have s: "only_scratch_written w (snd (save_temp img (say m2 (say m1 w))))"
    if "\<And>f. m1 \<noteq> NoMp3Found f" "\<And>f. m2 \<noteq> NoMp3Found f" for img m1 m2
    using osw_trans [OF osw_say [OF that(2) osw_say [OF that(1) osw_refl]] osw_save_temp]
    by simp
  show ?thesis
    by (auto simp: verify_cover_def Let_def osw_refl split_beta s osw_say
        split: sum.splits prod.splits)
qed

lemma osw_choose_cover:
  "only_scratch_written w (snd (choose_cover R folder p cw ch w))"
  using osw_create_temp_cover [of w p R]
  by (auto simp: choose_cover_def osw_say osw_refl split: sum.splits prod.splits)

lemma osw_prepare_cover: "only_scratch_written w (snd (prepare_cover R folder w))"
proof -
  let ?c = "path_join folder ''cover.jpg''"
  obtain r w1 where v: "verify_cover folder ?c w = (r, w1)"
    by (cases "verify_cover folder ?c w")
  have o1: "only_scratch_written w w1"
    using osw_verify_cover [of w folder ?c] v by simp
  have o2: "only_scratch_written w (snd (choose_cover R folder ?c cw ch w1))" for cw ch
    using osw_trans [OF o1 osw_choose_cover] .
  show ?thesis
    using o1 o2
    by (auto simp: prepare_cover_def Let_def v osw_say osw_refl
        split: option.splits sum.splits)
qed

section \<open>The decision to replace embedded artwork\<close>

text \<open>
  C1 (as amended). For an audio file that carries embedded artwork of size
  \<open>ew\<close> by \<open>eh\<close>, and a candidate cover of size \<open>width\<close> by \<open>height\<close>, the loop body of
  \<^verbatim>\<open>process_folder\<close> keeps the file as it is exactly when the embedded artwork is at
  least as wide and at least as high as the candidate. In every other case, that is as
  soon as the candidate is strictly larger in one dimension, all artwork tags are removed
  and one tag with the candidate's bytes is stored.
\<close>

theorem embed_file_replaces_unless_both_dimensions_cover:
  assumes "files w (path_join folder_path music_file) = Some (Audio audio_file)"
    and "get_embedded_artwork_resolution audio_file = Inr (Some (ew, eh))"
    and "files w temp_cover_path = Some (Plain (Encoded fmt new_artwork))"
  shows "files (embed_file temp_cover_path folder_path music_file w)
           (path_join folder_path music_file) =
         (if width new_artwork \<le> ew \<and> height new_artwork \<le> eh
          then Some (Audio audio_file)
          else Some (Audio (dict_set ''APIC:Cover''
                 (new_cover_frame (Encoded fmt new_artwork))
                 (filter (\<lambda>(k, tag). \<not> startswith k ''APIC'') audio_file))))"
  using assms
  by (simp add: embed_file_def Let_def id3_load_def image_open_def decode_def
      replace_artwork_files)

theorem embed_file_replaces_witness:
  "files tall_art_folder (path_join ''/m'' ''a.mp3'') = Some (Audio [cover_tag (jpeg 500 700)])
   \<and> get_embedded_artwork_resolution [cover_tag (jpeg 500 700)] = Inr (Some (500, 700))
   \<and> files tall_art_folder ''/m/cover.jpg'' =
       Some (Plain (jpeg 600 600))
   \<and> files (embed_file ''/m/cover.jpg'' ''/m'' ''a.mp3'' tall_art_folder)
         (path_join ''/m'' ''a.mp3'') = Some (Audio [cover_tag (jpeg 600 600)])"
proof -
  have h1: "files tall_art_folder (path_join ''/m'' ''a.mp3'') =
            Some (Audio [cover_tag (jpeg 500 700)])"
    by (simp add: tall_art_folder_def blank_def path_eval)
  have h2: "get_embedded_artwork_resolution [cover_tag (jpeg 500 700)] = Inr (Some (500, 700))"
    by (simp add: cover_tag_def jpeg_def decode_def)
  have h3: "files tall_art_folder ''/m/cover.jpg'' =
            Some (Plain (Encoded ''JPEG''
              \<lparr>mode = ''RGB'', width = 600, height = 600, loads = True\<rparr>))"
    by (simp add: tall_art_folder_def blank_def jpeg_def)
  show ?thesis
    using h1 h2 h3 embed_file_replaces_unless_both_dimensions_cover [OF h1 h2 h3]
    by (simp add: cover_tag_def jpeg_def new_cover_frame_def startswith_def)
qed

text \<open>
  The claim as the specification words it asks for a candidate strictly larger in both
  dimensions. A 600 by 600 cover replaces a 500 by 700 artwork, although the artwork is
  the higher of the two.
\<close>

theorem taller_artwork_is_replaced:
  "files tall_art_folder ''/m/a.mp3'' = Some (Audio [cover_tag (jpeg 500 700)])
   \<and> files (process_folder_embed 1000 ''/m'' tall_art_folder) ''/m/a.mp3'' =
       Some (Audio [cover_tag (jpeg 600 600)])
   \<and> \<not> ((600::int) > 500 \<and> (600::int) > 700)"
  by (simp add: tall_art_folder_def blank_def cover_tag_def jpeg_def process_folder_embed_def
      prepare_cover_def path_eval
      verify_cover_def image_open_def decode_def say_def check_cover_resolution_def
      choose_cover_def music_files_of_def embed_file_def id3_load_def replace_artwork_def
      read_bytes_def new_cover_frame_def Let_def)

section \<open>What is written to cover.jpg\<close>

text \<open>
  C2 (as amended). Whenever \<^verbatim>\<open>export_cover_from_mp3\<close> changes a file, the file is the
  folder's \<^verbatim>\<open>cover.jpg\<close> and its new bytes are the data of the first artwork tag of
  the first MP3 of the folder, as they are. Whenever \<^verbatim>\<open>download_artwork\<close> changes
  \<^verbatim>\<open>cover.jpg\<close>, the new bytes are the bytes received in a successful response whose
  content type contains \<^verbatim>\<open>image\<close>. Neither path decodes or converts the bytes, so the
  file is a valid JPEG exactly when those bytes are.
\<close>

theorem cover_jpg_holds_source_bytes:
  "(files (snd (export_cover_from_mp3 folder w)) p \<noteq> files w p \<longrightarrow>
      (\<exists>f others audio k tag.
         music_files_of w folder = f # others
         \<and> files w (path_join folder f) = Some (Audio audio)
         \<and> find (\<lambda>(k, tag). is_APIC tag) audio = Some (k, tag)
         \<and> p = path_join folder ''cover.jpg''
         \<and> files (snd (export_cover_from_mp3 folder w)) p = Some (Plain (data tag))))
   \<and> (files (snd (download_artwork n url folder ''cover.jpg'' w)) p \<noteq> files w p \<longrightarrow>
      (\<exists>ctype received finished.
         http_get n url = Response True (Some ctype) received finished
         \<and> sublist ''image'' ctype
         \<and> p = path_join folder ''cover.jpg''
         \<and> files (snd (download_artwork n url folder ''cover.jpg'' w)) p =
             Some (Plain received)))"
proof -
  have a: "\<exists>f others audio k tag.
         music_files_of w folder = f # others
         \<and> files w (path_join folder f) = Some (Audio audio)
         \<and> find (\<lambda>(k, tag). is_APIC tag) audio = Some (k, tag)
         \<and> p = path_join folder ''cover.jpg''
         \<and> files (snd (export_cover_from_mp3 folder w)) p = Some (Plain (data tag))"
    if "files (snd (export_cover_from_mp3 folder w)) p \<noteq> files w p"
    using that
    by (auto simp: export_cover_from_mp3_def export_from_def id3_load_def Let_def
        files_write_file
        split: list.splits option.splits filedata.splits sum.splits if_splits)
  have b: "\<exists>ctype received finished.
         http_get n url = Response True (Some ctype) received finished
         \<and> sublist ''image'' ctype
         \<and> p = path_join folder ''cover.jpg''
         \<and> files (snd (download_artwork n url folder ''cover.jpg'' w)) p =
             Some (Plain received)"
    if "files (snd (download_artwork n url folder ''cover.jpg'' w)) p \<noteq> files w p"
    using that
    by (auto simp: download_artwork_def Let_def files_write_file log_line_def request_def
        split: http_result.splits option.splits if_splits)
  from a b show ?thesis by blast
qed

theorem cover_jpg_holds_source_bytes_witness:
  "files (snd (export_cover_from_mp3 ''/m'' (art_folder (jpeg 500 500)))) ''/m/cover.jpg''
     \<noteq> files (art_folder (jpeg 500 500)) ''/m/cover.jpg''
   \<and> files (snd (download_artwork png_net ''u'' ''/m'' ''cover.jpg'' (art_folder (jpeg 500 500))))
        ''/m/cover.jpg'' \<noteq> files (art_folder (jpeg 500 500)) ''/m/cover.jpg''
   \<and> (\<exists>tag. files (snd (export_cover_from_mp3 ''/m'' (art_folder (jpeg 500 500))))
               ''/m/cover.jpg'' = Some (Plain (data tag)))
   \<and> (\<exists>received. files (snd (download_artwork png_net ''u'' ''/m'' ''cover.jpg''
                (art_folder (jpeg 500 500)))) ''/m/cover.jpg'' = Some (Plain received))"
proof -
  have h1: "files (snd (export_cover_from_mp3 ''/m'' (art_folder (jpeg 500 500))))
              ''/m/cover.jpg'' \<noteq> files (art_folder (jpeg 500 500)) ''/m/cover.jpg''"
    by (simp add: art_folder_def blank_def cover_tag_def export_cover_from_mp3_def
      export_from_def music_files_of_def path_eval id3_load_def Let_def write_file_def say_def)
  have h2: "files (snd (download_artwork png_net ''u'' ''/m'' ''cover.jpg''
              (art_folder (jpeg 500 500)))) ''/m/cover.jpg''
            \<noteq> files (art_folder (jpeg 500 500)) ''/m/cover.jpg''"
    by (simp add: art_folder_def blank_def download_artwork_def png_net_def silent_net_def
      request_def log_line_def sublist_code path_eval Let_def write_file_def)
  show ?thesis
    using h1 h2
      cover_jpg_holds_source_bytes [of "''/m''" "art_folder (jpeg 500 500)" "''/m/cover.jpg''"
        png_net "''u''"]
    by blast
qed

text \<open>
  The claim as the specification words it promises a valid JPEG after every write. A
  track whose artwork tag holds a PNG image exports that PNG as \<^verbatim>\<open>cover.jpg\<close>, and a
  response of type \<^verbatim>\<open>image/png\<close> is saved as \<^verbatim>\<open>cover.jpg\<close> too.
\<close>

theorem png_artwork_exported_as_cover_jpg:
  "files (snd (export_cover_from_mp3 ''/m'' (art_folder (png 500 500)))) ''/m/cover.jpg'' =
     Some (Plain (png 500 500))
   \<and> files (snd (download_artwork png_net ''http://x/y.png'' ''/m'' ''cover.jpg''
                  (art_folder (png 500 500)))) ''/m/cover.jpg'' =
     Some (Plain (png 500 500))
   \<and> \<not> is_jpeg (png 500 500)"
  by (simp add: art_folder_def blank_def cover_tag_def png_def export_cover_from_mp3_def
      export_from_def music_files_of_def path_eval id3_load_def Let_def write_file_def say_def
      download_artwork_def png_net_def silent_net_def request_def log_line_def
      sublist_code is_jpeg_def)

section \<open>The image normalizer\<close>

text \<open>
  In this section the source image is the content of a cover file that Pillow opens,
  and \<open>R\<close> is the target resolution \<^verbatim>\<open>TEMP_RES\<close>.
\<close>

lemma save_temp_accepted:
  "loads img \<Longrightarrow> jpeg_writer_accepts img \<Longrightarrow>
   save_temp img w =
     (Inr (), write_file temp_dir temp_name
        (Plain (Encoded ''JPEG'' (img\<lparr>mode := jpeg_read_mode (mode img)\<rparr>))) w)"
  by (simp add: save_temp_def)

lemma save_temp_refused:
  "\<not> (loads img \<and> jpeg_writer_accepts img) \<Longrightarrow> isl (fst (save_temp img w))"
  by (auto simp: save_temp_def)

text \<open>The conversion raises, or gives the image in the converted mode.\<close>

lemma conversion_step:
  "to_rgb img =
     (if mode img \<in> set [''RGBA'', ''P''] \<and> \<not> loads img then Inl OSError
      else Inr (img\<lparr>mode := converted_mode img\<rparr>))"
  by (cases img) (simp add: to_rgb_def convert_def converted_mode_def)

lemma create_temp_cover_resized:
  assumes "files w cover_path = Some (Plain (Encoded fmt img))"
    and "R \<le> width img" and "R \<le> height img"
    and "loads img" and "converted_mode img \<in> set jpeg_modes"
    and "1 \<le> R" and "R \<le> 65500"
  shows "create_temp_cover cover_path R w =
           (Inr temp_path, write_file temp_dir temp_name
              (Plain (Encoded ''JPEG''
                 \<lparr>mode = jpeg_read_mode (converted_mode img), width = R, height = R,
                  loads = True\<rparr>)) w)"
proof -
  let ?r = "img\<lparr>mode := converted_mode img, width := R, height := R\<rparr>"
  have a: "loads ?r" "jpeg_writer_accepts ?r"
    using assms by (simp_all add: jpeg_writer_accepts_def)
  show ?thesis
    using assms save_temp_accepted [OF a, of w]
    by (cases img)
      (simp add: create_temp_cover_def image_open_def decode_def conversion_step
        resize_def)
qed

lemma create_temp_cover_resize_refused:
  assumes "files w cover_path = Some (Plain (Encoded fmt img))"
    and "R \<le> width img" and "R \<le> height img"
    and no: "\<not> (loads img \<and> converted_mode img \<in> set jpeg_modes \<and> 1 \<le> R \<and> R \<le> 65500)"
  shows "isl (fst (create_temp_cover cover_path R w))"
proof (cases "loads img \<and> 1 \<le> R")
  case False
  then show ?thesis
    using assms
    by (auto simp: create_temp_cover_def image_open_def decode_def conversion_step
        resize_def)
next
  case True
  let ?r = "img\<lparr>mode := converted_mode img, width := R, height := R\<rparr>"
  have "\<not> (loads ?r \<and> jpeg_writer_accepts ?r)"
    using no True by (auto simp: jpeg_writer_accepts_def)
  then have "isl (fst (save_temp ?r w))"
    by (rule save_temp_refused)
  then show ?thesis
    using assms True
    by (cases "save_temp ?r w")
      (auto simp: create_temp_cover_def image_open_def decode_def conversion_step
        resize_def split: sum.splits)
qed

lemma create_temp_cover_same_size:
  assumes "files w cover_path = Some (Plain (Encoded fmt img))"
    and nb: "\<not> (R \<le> width img \<and> R \<le> height img)"
    and "loads img" and "converted_mode img \<in> set jpeg_modes"
    and "1 \<le> width img" and "width img \<le> 65500"
    and "1 \<le> height img" and "height img \<le> 65500"
  shows "create_temp_cover cover_path R w =
           (Inr temp_path, write_file temp_dir temp_name
              (Plain (Encoded ''JPEG''
                 \<lparr>mode = jpeg_read_mode (converted_mode img), width = width img,
                  height = height img, loads = True\<rparr>)) w)"
proof -
  let ?c = "img\<lparr>mode := converted_mode img\<rparr>"
  have a: "loads ?c" "jpeg_writer_accepts ?c"
    using assms by (simp_all add: jpeg_writer_accepts_def)
  show ?thesis
    using assms(1,3) nb save_temp_accepted [OF a, of w]
    by (cases img)
      (auto simp: create_temp_cover_def image_open_def decode_def conversion_step)
qed

lemma create_temp_cover_same_size_refused:
  assumes "files w cover_path = Some (Plain (Encoded fmt img))"
    and nb: "\<not> (R \<le> width img \<and> R \<le> height img)"
    and no: "\<not> (loads img \<and> converted_mode img \<in> set jpeg_modes
            \<and> 1 \<le> width img \<and> width img \<le> 65500
            \<and> 1 \<le> height img \<and> height img \<le> 65500)"
  shows "isl (fst (create_temp_cover cover_path R w))"
proof -
  let ?c = "img\<lparr>mode := converted_mode img\<rparr>"
  have "\<not> (loads ?c \<and> jpeg_writer_accepts ?c)"
    using no by (auto simp: jpeg_writer_accepts_def)
  then have "isl (fst (save_temp ?c w))"
    by (rule save_temp_refused)
  then show ?thesis
    using assms(1) nb
    by (cases "save_temp ?c w")
      (auto simp: create_temp_cover_def image_open_def decode_def conversion_step
        split: sum.splits)
qed

text \<open>
  Lines 107 to 127 on a cover that opens: a JPEG cover passes; any other cover passes
  exactly when it can be saved as JPEG without being resized.
\<close>

lemma verify_cover_passes:
  assumes "files w cover_path = Some (Plain (Encoded fmt img))"
    and ok: "fmt = ''JPEG'' \<or> (loads img \<and> converted_mode img \<in> set jpeg_modes
            \<and> 1 \<le> width img \<and> width img \<le> 65500
            \<and> 1 \<le> height img \<and> height img \<le> 65500)"
  shows "\<not> isl (fst (verify_cover folder cover_path w))"
proof (cases "fmt = ''JPEG''")
  case True
  then show ?thesis
    using assms(1) by (simp add: verify_cover_def image_open_def decode_def Let_def)
next
  case False
  let ?c = "img\<lparr>mode := converted_mode img\<rparr>"
  have a: "loads ?c" "jpeg_writer_accepts ?c"
    using ok False by (simp_all add: jpeg_writer_accepts_def)
  show ?thesis
    using assms(1) False a(1) save_temp_accepted [OF a]
    by (simp add: verify_cover_def image_open_def decode_def Let_def conversion_step)
qed

lemma verify_cover_refuses:
  assumes "files w cover_path = Some (Plain (Encoded fmt img))"
    and no: "\<not> (fmt = ''JPEG'' \<or> (loads img \<and> converted_mode img \<in> set jpeg_modes
            \<and> 1 \<le> width img \<and> width img \<le> 65500
            \<and> 1 \<le> height img \<and> height img \<le> 65500))"
  shows "isl (fst (verify_cover folder cover_path w))"
proof -
  let ?c = "img\<lparr>mode := converted_mode img\<rparr>"
  let ?w2 = "say (Converting fmt) (say (FoundCover folder fmt) w)"
  have "\<not> (loads ?c \<and> jpeg_writer_accepts ?c)"
    using no by (auto simp: jpeg_writer_accepts_def)
  then have "isl (fst (save_temp ?c ?w2))"
    by (rule save_temp_refused)
  then show ?thesis
    using assms(1) no
    by (cases "save_temp ?c ?w2")
      (auto simp: verify_cover_def image_open_def decode_def Let_def conversion_step
        split: sum.splits)
qed

lemma prepare_cover_verify_refused:
  assumes "files w (path_join folder ''cover.jpg'') = Some (Plain (Encoded fmt img))"
    and "isl (fst (verify_cover folder (path_join folder ''cover.jpg'') w))"
  shows "isl (fst (prepare_cover R folder w))"
  using assms
  by (cases "verify_cover folder (path_join folder ''cover.jpg'') w")
    (auto simp: prepare_cover_def Let_def split: sum.splits)

text \<open>
  Once the cover has passed and is not small in both dimensions, the outcome of the
  preparation is the outcome of \<^verbatim>\<open>create_temp_cover\<close>, run in a world that holds the
  same cover.
\<close>

lemma prepare_cover_not_small:
  assumes cover: "files w (path_join folder ''cover.jpg'') = Some (Plain (Encoded fmt img))"
    and passes: "\<not> isl (fst (verify_cover folder (path_join folder ''cover.jpg'') w))"
    and ns: "\<not> (width img < R \<and> height img < R)"
  shows "\<exists>w1. files w1 (path_join folder ''cover.jpg'') = Some (Plain (Encoded fmt img))
           \<and> fst (prepare_cover R folder w) =
               fst (create_temp_cover (path_join folder ''cover.jpg'') R w1)
           \<and> files (snd (prepare_cover R folder w)) =
               files (snd (create_temp_cover (path_join folder ''cover.jpg'') R w1))"
proof -
  let ?c = "path_join folder ''cover.jpg''"
  obtain r w1 where v: "verify_cover folder ?c w = (r, w1)"
    by (cases "verify_cover folder ?c w")
  obtain p where r: "r = Inr p"
    using passes v by (cases r) simp_all
  have "only_scratch_written w w1"
    using osw_verify_cover [of w folder ?c] v by simp
  then have c1: "files w1 ?c = Some (Plain (Encoded fmt img))"
    using cover cover_path_not_temp by (simp add: only_scratch_written_def)
  have ch: "choose_cover R folder ?c (width img) (height img) w1 =
            (case create_temp_cover ?c R w1 of
               (Inl e, w') \<Rightarrow> (Inl e, say (ResizeFailed folder) w')
             | (Inr q, w') \<Rightarrow> (Inr q, say (CreatedResized q) w'))"
    unfolding choose_cover_def using ns by (rule if_not_P)
  have "prepare_cover R folder w = choose_cover R folder ?c (width img) (height img) w1"
    using cover v r check_cover_resolution_decodable [OF c1]
    by (simp add: prepare_cover_def Let_def)
  then have "fst (prepare_cover R folder w) = fst (create_temp_cover ?c R w1)
       \<and> files (snd (prepare_cover R folder w)) = files (snd (create_temp_cover ?c R w1))"
    by (cases "create_temp_cover ?c R w1") (auto simp: ch split: sum.splits)
  with c1 show ?thesis by blast
qed

text \<open>
  C4 (as amended). A source image at least \<open>R\<close> wide and at least \<open>R\<close> high.
  \<^verbatim>\<open>create_temp_cover\<close> writes a JPEG image of exactly \<open>R\<close> by \<open>R\<close> pixels to the
  scratch file exactly when the pixels of the image load, its mode after the conversion
  of \<^verbatim>\<open>RGBA\<close> and \<^verbatim>\<open>P\<close> is one the JPEG writer accepts, and \<open>R\<close> is between 1 and
  65500; in every other case it raises. The normalization step of \<^verbatim>\<open>process_folder\<close>
  does the same, with one more condition for a cover that is not JPEG: lines 115 to
  121 save it unresized first, so neither side may exceed 65500 pixels. When the step
  raises, the folder is skipped.
\<close>

theorem big_cover_square_jpeg_or_skipped:
  assumes cover: "files w cover_path = Some (Plain (Encoded fmt img))"
    and big: "R \<le> width img" "R \<le> height img"
  shows "(if loads img \<and> converted_mode img \<in> set jpeg_modes \<and> 1 \<le> R \<and> R \<le> 65500
          then fst (create_temp_cover cover_path R w) = Inr temp_path
               \<and> files (snd (create_temp_cover cover_path R w)) temp_path =
                   Some (Plain (Encoded ''JPEG''
           \<lparr>mode = jpeg_read_mode (converted_mode img), width = R, height = R,
            loads = True\<rparr>))
          else isl (fst (create_temp_cover cover_path R w)))
     \<and> (cover_path = path_join folder ''cover.jpg'' \<longrightarrow>
          (if loads img \<and> converted_mode img \<in> set jpeg_modes \<and> 1 \<le> R \<and> R \<le> 65500
              \<and> (fmt = ''JPEG'' \<or> (width img \<le> 65500 \<and> height img \<le> 65500))
           then fst (prepare_cover R folder w) = Inr temp_path
                \<and> files (snd (prepare_cover R folder w)) temp_path =
                    Some (Plain (Encoded ''JPEG''
           \<lparr>mode = jpeg_read_mode (converted_mode img), width = R, height = R,
            loads = True\<rparr>))
           else isl (fst (prepare_cover R folder w))))"
proof -
  let ?ok = "loads img \<and> converted_mode img \<in> set jpeg_modes \<and> 1 \<le> R \<and> R \<le> 65500"
  have a: "fst (create_temp_cover cover_path R w) = Inr temp_path
           \<and> files (snd (create_temp_cover cover_path R w)) temp_path =
               Some (Plain (Encoded ''JPEG''
           \<lparr>mode = jpeg_read_mode (converted_mode img), width = R, height = R,
            loads = True\<rparr>))"
    if ?ok
    using that create_temp_cover_resized [OF cover big]
    by (simp add: files_write_file temp_path_join)
  have a': "isl (fst (create_temp_cover cover_path R w))" if "\<not> ?ok"
    using that create_temp_cover_resize_refused [OF cover big] by blast
  have b: "fst (prepare_cover R folder w) = Inr temp_path
           \<and> files (snd (prepare_cover R folder w)) temp_path =
               Some (Plain (Encoded ''JPEG''
           \<lparr>mode = jpeg_read_mode (converted_mode img), width = R, height = R,
            loads = True\<rparr>))"
    if eq: "cover_path = path_join folder ''cover.jpg''" and ok: ?ok
      and sz: "fmt = ''JPEG'' \<or> (width img \<le> 65500 \<and> height img \<le> 65500)"
  proof -
    have "fmt = ''JPEG'' \<or> (loads img \<and> converted_mode img \<in> set jpeg_modes
            \<and> 1 \<le> width img \<and> width img \<le> 65500
            \<and> 1 \<le> height img \<and> height img \<le> 65500)"
      using ok sz big by auto
    then have passes: "\<not> isl (fst (verify_cover folder (path_join folder ''cover.jpg'') w))"
      using verify_cover_passes [OF cover [unfolded eq]] by blast
    have ns: "\<not> (width img < R \<and> height img < R)"
      using big by auto
    obtain w1 where c1: "files w1 cover_path = Some (Plain (Encoded fmt img))"
      and f: "fst (prepare_cover R folder w) = fst (create_temp_cover cover_path R w1)"
      and g: "files (snd (prepare_cover R folder w)) =
              files (snd (create_temp_cover cover_path R w1))"
      using prepare_cover_not_small [OF cover [unfolded eq] passes ns] eq by blast
    show ?thesis
      using ok create_temp_cover_resized [OF c1 big]
      by (simp add: f g files_write_file temp_path_join)
  qed
  have b': "isl (fst (prepare_cover R folder w))"
    if eq: "cover_path = path_join folder ''cover.jpg''"
      and no: "\<not> (?ok \<and> (fmt = ''JPEG'' \<or> (width img \<le> 65500 \<and> height img \<le> 65500)))"
  proof (cases "isl (fst (verify_cover folder (path_join folder ''cover.jpg'') w))")
    case True
    then show ?thesis
      using prepare_cover_verify_refused [OF cover [unfolded eq]] by blast
  next
    case False
    then have "fmt = ''JPEG'' \<or> (loads img \<and> converted_mode img \<in> set jpeg_modes
            \<and> 1 \<le> width img \<and> width img \<le> 65500
            \<and> 1 \<le> height img \<and> height img \<le> 65500)"
      using verify_cover_refuses [OF cover [unfolded eq], of folder] by blast
    then have nok: "\<not> ?ok"
      using no by auto
    have ns: "\<not> (width img < R \<and> height img < R)"
      using big by auto
    obtain w1 where c1: "files w1 cover_path = Some (Plain (Encoded fmt img))"
      and f: "fst (prepare_cover R folder w) = fst (create_temp_cover cover_path R w1)"
      using prepare_cover_not_small [OF cover [unfolded eq] False ns] eq by blast
    show ?thesis
      using create_temp_cover_resize_refused [OF c1 big nok] by (simp add: f)
  qed
  show ?thesis
    using a a' b b' by (simp only: split: if_splits) blast
qed

theorem big_cover_witness:
  "files (cover_only (Encoded ''PNG''
            \<lparr>mode = ''RGBA'', width = 1000, height = 800, loads = True\<rparr>)) ''/m/cover.jpg'' =
     Some (Plain (Encoded ''PNG'' \<lparr>mode = ''RGBA'', width = 1000, height = 800, loads = True\<rparr>))
   \<and> (600::int) \<le> 1000 \<and> (600::int) \<le> 800
   \<and> fst (create_temp_cover ''/m/cover.jpg'' 600
        (cover_only (Encoded ''PNG''
            \<lparr>mode = ''RGBA'', width = 1000, height = 800, loads = True\<rparr>))) = Inr temp_path
   \<and> files (snd (create_temp_cover ''/m/cover.jpg'' 600
        (cover_only (Encoded ''PNG''
            \<lparr>mode = ''RGBA'', width = 1000, height = 800, loads = True\<rparr>)))) temp_path =
       Some (Plain (jpeg 600 600))
   \<and> fst (prepare_cover 600 ''/m''
        (cover_only (Encoded ''PNG''
            \<lparr>mode = ''RGBA'', width = 1000, height = 800, loads = True\<rparr>))) = Inr temp_path
   \<and> files (snd (prepare_cover 600 ''/m''
        (cover_only (Encoded ''PNG''
            \<lparr>mode = ''RGBA'', width = 1000, height = 800, loads = True\<rparr>)))) temp_path =
       Some (Plain (jpeg 600 600))"
proof -
  let ?img = "\<lparr>mode = ''RGBA'', width = 1000, height = 800, loads = True\<rparr>"
  have h1: "files (cover_only (Encoded ''PNG'' ?img)) ''/m/cover.jpg'' =
            Some (Plain (Encoded ''PNG'' ?img))"
    by (simp add: cover_only_def blank_def)
  have h2: "(600::int) \<le> width ?img" by simp
  have h3: "(600::int) \<le> height ?img" by simp
  have j: "path_join ''/m'' ''cover.jpg'' = ''/m/cover.jpg''"
    by (simp add: path_eval)
  show ?thesis
    using h1 big_cover_square_jpeg_or_skipped [OF h1 h2 h3, of "''/m''"]
    by (simp add: j jpeg_def jpeg_read_mode_def converted_mode_def jpeg_modes_def)
qed

text \<open>
  The claim as the specification words it gives every such image an output of \<open>R\<close> by
  \<open>R\<close> pixels. A 1000 by 800 PNG cover in mode \<^verbatim>\<open>LA\<close> (grey with alpha), with a
  target of 600: the JPEG writer refuses the mode, nothing is written, and the folder is
  skipped. A 70000 by 700 PNG cover in mode \<^verbatim>\<open>RGB\<close>: the unresized save of lines 115 to
  121 exceeds the writer's limit, and the folder is skipped as well.
\<close>

theorem grey_alpha_cover_is_skipped:
  "fst (create_temp_cover ''/m/cover.jpg'' 600
     (cover_only (Encoded ''PNG'' \<lparr>mode = ''LA'', width = 1000, height = 800, loads = True\<rparr>))) =
     Inl OSError
   \<and> files (snd (create_temp_cover ''/m/cover.jpg'' 600
       (cover_only (Encoded ''PNG'' \<lparr>mode = ''LA'', width = 1000, height = 800, loads = True\<rparr>))))
         temp_path = None
   \<and> out (process_folder_embed 600 ''/m''
       (cover_only (Encoded ''PNG'' \<lparr>mode = ''LA'', width = 1000, height = 800, loads = True\<rparr>))) =
       [FoundCover ''/m'' ''PNG'', Converting ''PNG'', CoverInvalid ''/m'']
   \<and> files (process_folder_embed 600 ''/m''
       (cover_only (Encoded ''PNG'' \<lparr>mode = ''LA'', width = 1000, height = 800, loads = True\<rparr>)))
         temp_path = None
   \<and> out (process_folder_embed 600 ''/m'' (cover_only (png 70000 700))) =
       [FoundCover ''/m'' ''PNG'', Converting ''PNG'', CoverInvalid ''/m'']
   \<and> files (process_folder_embed 600 ''/m'' (cover_only (png 70000 700))) temp_path = None"
  by (simp add: cover_only_def blank_def png_def process_folder_embed_def
      prepare_cover_def path_eval verify_cover_def image_open_def decode_def say_def
      create_temp_cover_def resize_def convert_def to_rgb_def
      save_temp_def jpeg_writer_accepts_def jpeg_modes_def temp_path_def Let_def)

text \<open>
  C10 (as amended). A source image of which exactly one dimension reaches \<open>R\<close>: the
  normalization step of \<^verbatim>\<open>process_folder\<close> calls \<^verbatim>\<open>create_temp_cover\<close>, which does
  not resize. The scratch file receives a JPEG image of the original width and height
  exactly when the pixels of the image load, its mode after the conversion of \<^verbatim>\<open>RGBA\<close>
  and \<^verbatim>\<open>P\<close> is one the JPEG writer accepts, and neither side exceeds 65500 pixels (nor
  is empty); in every other case the step raises and the folder is skipped.
\<close>

theorem mixed_cover_same_size_jpeg_or_skipped:
  assumes cover: "files w cover_path = Some (Plain (Encoded fmt img))"
    and mixed: "(R \<le> width img \<and> height img < R) \<or> (width img < R \<and> R \<le> height img)"
  shows "(if loads img \<and> converted_mode img \<in> set jpeg_modes
             \<and> 1 \<le> width img \<and> width img \<le> 65500
             \<and> 1 \<le> height img \<and> height img \<le> 65500
          then fst (create_temp_cover cover_path R w) = Inr temp_path
               \<and> files (snd (create_temp_cover cover_path R w)) temp_path =
                   Some (Plain (Encoded ''JPEG''
           \<lparr>mode = jpeg_read_mode (converted_mode img), width = width img, height = height img,
            loads = True\<rparr>))
          else isl (fst (create_temp_cover cover_path R w)))
     \<and> (cover_path = path_join folder ''cover.jpg'' \<longrightarrow>
          (if loads img \<and> converted_mode img \<in> set jpeg_modes
              \<and> 1 \<le> width img \<and> width img \<le> 65500
              \<and> 1 \<le> height img \<and> height img \<le> 65500
           then fst (prepare_cover R folder w) = Inr temp_path
                \<and> files (snd (prepare_cover R folder w)) temp_path =
                    Some (Plain (Encoded ''JPEG''
           \<lparr>mode = jpeg_read_mode (converted_mode img), width = width img, height = height img,
            loads = True\<rparr>))
           else isl (fst (prepare_cover R folder w))))"
proof -
  let ?ok = "loads img \<and> converted_mode img \<in> set jpeg_modes
             \<and> 1 \<le> width img \<and> width img \<le> 65500
             \<and> 1 \<le> height img \<and> height img \<le> 65500"
  have nb: "\<not> (R \<le> width img \<and> R \<le> height img)"
    using mixed by auto
  have ns: "\<not> (width img < R \<and> height img < R)"
    using mixed by auto
  have a: "fst (create_temp_cover cover_path R w) = Inr temp_path
           \<and> files (snd (create_temp_cover cover_path R w)) temp_path =
               Some (Plain (Encoded ''JPEG''
           \<lparr>mode = jpeg_read_mode (converted_mode img), width = width img, height = height img,
            loads = True\<rparr>))"
    if ?ok
    using that create_temp_cover_same_size [OF cover nb]
    by (simp add: files_write_file temp_path_join)
  have a': "isl (fst (create_temp_cover cover_path R w))" if "\<not> ?ok"
    using that create_temp_cover_same_size_refused [OF cover nb] by blast
  have b: "fst (prepare_cover R folder w) = Inr temp_path
           \<and> files (snd (prepare_cover R folder w)) temp_path =
               Some (Plain (Encoded ''JPEG''
           \<lparr>mode = jpeg_read_mode (converted_mode img), width = width img, height = height img,
            loads = True\<rparr>))"
    if eq: "cover_path = path_join folder ''cover.jpg''" and ok: ?ok
  proof -
    have passes: "\<not> isl (fst (verify_cover folder (path_join folder ''cover.jpg'') w))"
      using ok verify_cover_passes [OF cover [unfolded eq]] by blast
    obtain w1 where c1: "files w1 cover_path = Some (Plain (Encoded fmt img))"
      and f: "fst (prepare_cover R folder w) = fst (create_temp_cover cover_path R w1)"
      and g: "files (snd (prepare_cover R folder w)) =
              files (snd (create_temp_cover cover_path R w1))"
      using prepare_cover_not_small [OF cover [unfolded eq] passes ns] eq by blast
    show ?thesis
      using ok create_temp_cover_same_size [OF c1 nb]
      by (simp add: f g files_write_file temp_path_join)
  qed
  have b': "isl (fst (prepare_cover R folder w))"
    if eq: "cover_path = path_join folder ''cover.jpg''" and no: "\<not> ?ok"
  proof (cases "isl (fst (verify_cover folder (path_join folder ''cover.jpg'') w))")
    case True
    then show ?thesis
      using prepare_cover_verify_refused [OF cover [unfolded eq]] by blast
  next
    case False
    obtain w1 where c1: "files w1 cover_path = Some (Plain (Encoded fmt img))"
      and f: "fst (prepare_cover R folder w) = fst (create_temp_cover cover_path R w1)"
      using prepare_cover_not_small [OF cover [unfolded eq] False ns] eq by blast
    show ?thesis
      using create_temp_cover_same_size_refused [OF c1 nb no] by (simp add: f)
  qed
  show ?thesis
    using a a' b b' by (simp only: split: if_splits) blast
qed

theorem mixed_cover_witness:
  "files (cover_only (jpeg 1000 400)) ''/m/cover.jpg'' = Some (Plain (jpeg 1000 400))
   \<and> (((600::int) \<le> 1000 \<and> (400::int) < 600) \<or> ((1000::int) < 600 \<and> (600::int) \<le> 400))
   \<and> fst (create_temp_cover ''/m/cover.jpg'' 600 (cover_only (jpeg 1000 400))) = Inr temp_path
   \<and> files (snd (create_temp_cover ''/m/cover.jpg'' 600 (cover_only (jpeg 1000 400))))
         temp_path = Some (Plain (jpeg 1000 400))
   \<and> fst (prepare_cover 600 ''/m'' (cover_only (jpeg 1000 400))) = Inr temp_path
   \<and> files (snd (prepare_cover 600 ''/m'' (cover_only (jpeg 1000 400)))) temp_path =
       Some (Plain (jpeg 1000 400))"
proof -
  let ?img = "\<lparr>mode = ''RGB'', width = 1000, height = 400, loads = True\<rparr>"
  have h1: "files (cover_only (jpeg 1000 400)) ''/m/cover.jpg'' =
            Some (Plain (Encoded ''JPEG'' ?img))"
    by (simp add: cover_only_def blank_def jpeg_def)
  have h2: "((600::int) \<le> width ?img \<and> height ?img < 600)
            \<or> (width ?img < 600 \<and> (600::int) \<le> height ?img)" by simp
  have j: "path_join ''/m'' ''cover.jpg'' = ''/m/cover.jpg''"
    by (simp add: path_eval)
  show ?thesis
    using h1 mixed_cover_same_size_jpeg_or_skipped [OF h1 h2, of "''/m''"]
    by (simp add: j jpeg_def jpeg_read_mode_def converted_mode_def jpeg_modes_def)
qed

text \<open>
  The claim as the specification words it gives every such image an output. A 70000
  by 100 PNG cover in mode \<^verbatim>\<open>RGB\<close>, with a target of 600, is not resized, and the JPEG
  writer refuses its width: \<^verbatim>\<open>create_temp_cover\<close> raises and writes nothing, and
  \<^verbatim>\<open>process_folder\<close> skips the folder.
\<close>

theorem very_wide_cover_is_skipped:
  "fst (create_temp_cover ''/m/cover.jpg'' 600 (cover_only (png 70000 100))) = Inl OSError
   \<and> files (snd (create_temp_cover ''/m/cover.jpg'' 600 (cover_only (png 70000 100))))
         temp_path = None
   \<and> out (process_folder_embed 600 ''/m'' (cover_only (png 70000 100))) =
       [FoundCover ''/m'' ''PNG'', Converting ''PNG'', CoverInvalid ''/m'']
   \<and> files (process_folder_embed 600 ''/m'' (cover_only (png 70000 100))) temp_path = None"
  by (simp add: cover_only_def blank_def png_def process_folder_embed_def
      prepare_cover_def path_eval verify_cover_def image_open_def decode_def say_def
      create_temp_cover_def resize_def convert_def to_rgb_def
      save_temp_def jpeg_writer_accepts_def jpeg_modes_def temp_path_def Let_def)

text \<open>
  C3 (the code departs from it). A 300 by 300 PNG cover, below a target of 600.
  Lines 114 to 122 of \<^verbatim>\<open>process_folder\<close> convert it and save the JPEG image to the
  scratch file, and line 139 then sets \<^verbatim>\<open>temp_cover_path\<close> back to \<^verbatim>\<open>cover.jpg\<close>: the
  cover chosen is the PNG file, and its PNG bytes are what the track receives. The
  dimensions are unchanged, but the output is not encoded as JPEG.
\<close>

theorem small_png_cover_stays_png:
  "fst (prepare_cover 600 ''/m'' small_png_folder) = Inr ''/m/cover.jpg''
   \<and> files (snd (prepare_cover 600 ''/m'' small_png_folder)) ''/m/cover.jpg'' =
       Some (Plain (png 300 300))
   \<and> files (snd (prepare_cover 600 ''/m'' small_png_folder)) temp_path =
       Some (Plain (jpeg 300 300))
   \<and> files (process_folder_embed 600 ''/m'' small_png_folder) ''/m/a.mp3'' =
       Some (Audio [cover_tag (png 300 300)])
   \<and> \<not> is_jpeg (png 300 300)"
  by (simp add: small_png_folder_def blank_def cover_tag_def png_def jpeg_def
      process_folder_embed_def prepare_cover_def path_eval
      verify_cover_def image_open_def decode_def say_def check_cover_resolution_def
      choose_cover_def music_files_of_def embed_file_def id3_load_def replace_artwork_def
      read_bytes_def new_cover_frame_def Let_def is_jpeg_def save_temp_def to_rgb_def
      convert_def
      jpeg_writer_accepts_def jpeg_modes_def
      write_file_def temp_dir_def temp_name_def temp_path_def jpeg_read_mode_def)

section \<open>The order of the artwork sources\<close>

lemma itunes_fst: "fst (fetch_itunes_artwork n a b w) = fst (fetch_itunes_artwork n a b v)"
  by (simp add: fetch_itunes_artwork_def Let_def split: sum.splits option.splits prod.splits)

lemma itunes_requests:
  "requests (snd (fetch_itunes_artwork n a b w)) = requests w @ [ITunes]"
  by (simp add: fetch_itunes_artwork_def Let_def request_def log_line_def
      split: sum.splits option.splits prod.splits)

lemma lastfm_requests:
  "requests (snd (fetch_lastfm_artwork cfg n a b w)) =
     requests w @ (if NO_LOW_RES cfg then [] else [LastFm])"
  by (simp add: fetch_lastfm_artwork_def Let_def request_def log_line_def say_def
      split: sum.splits option.splits prod.splits)

lemma mb_id_fst:
  "fst (fetch_musicbrainz_release_id n a b w) = fst (fetch_musicbrainz_release_id n a b v)"
  by (simp add: fetch_musicbrainz_release_id_def Let_def
      split: sum.splits option.splits list.splits)

lemma mb_id_requests:
  "requests (snd (fetch_musicbrainz_release_id n a b w)) = requests w @ [MusicBrainz]"
  by (simp add: fetch_musicbrainz_release_id_def Let_def request_def log_line_def
      split: sum.splits option.splits list.splits)

lemma caa_fst: "fst (fetch_caa_artwork n r w) = fst (fetch_caa_artwork n r v)"
  by (simp add: fetch_caa_artwork_def Let_def split: sum.splits option.splits prod.splits)

lemma caa_requests:
  "requests (snd (fetch_caa_artwork n r w)) = requests w @ [CoverArtArchive]"
  by (simp add: fetch_caa_artwork_def Let_def request_def log_line_def
      split: sum.splits option.splits prod.splits)

lemma musicbrainz_fst:
  "fst (musicbrainz_artwork cfg n a b w) = fst (musicbrainz_artwork cfg n a b v)"
  using mb_id_fst [of n a b w v]
    caa_fst [of n _ "snd (fetch_musicbrainz_release_id n a b w)"
                    "snd (fetch_musicbrainz_release_id n a b v)"]
  by (simp add: musicbrainz_artwork_def split_beta)

lemma musicbrainz_requests:
  "requests (snd (musicbrainz_artwork cfg n a b w)) = requests w @ mb_calls cfg n a b"
  using mb_id_fst [of n a b w blank]
  by (simp add: musicbrainz_artwork_def mb_calls_def split_beta mb_id_requests caa_requests)

lemma resolve_requests:
  "requests (snd (resolve_artwork cfg n a b w)) =
     requests w @ mb_calls cfg n a b
       @ (if \<not> truthy (fst (musicbrainz_artwork cfg n a b w)) \<and> USE_HIRES_PRIORITY cfg
          then [ITunes] else [])
       @ (if \<not> truthy (fst (musicbrainz_artwork cfg n a b w))
             \<and> \<not> (USE_HIRES_PRIORITY cfg \<and> truthy (fst (fetch_itunes_artwork n a b w)))
             \<and> \<not> NO_LOW_RES cfg
          then [LastFm] else [])"
  using itunes_fst [of n a b "snd (musicbrainz_artwork cfg n a b w)" w]
  by (simp add: resolve_artwork_def split_beta musicbrainz_requests itunes_requests
      lastfm_requests)

lemma resolve_fst_mb:
  "truthy (fst (musicbrainz_artwork cfg n a b w)) \<Longrightarrow>
   fst (resolve_artwork cfg n a b w) = fst (musicbrainz_artwork cfg n a b w)"
  by (simp add: resolve_artwork_def split_beta)

lemma resolve_fst_itunes:
  "\<not> truthy (fst (musicbrainz_artwork cfg n a b w)) \<Longrightarrow> USE_HIRES_PRIORITY cfg \<Longrightarrow>
   truthy (fst (fetch_itunes_artwork n a b w)) \<Longrightarrow>
   fst (resolve_artwork cfg n a b w) = fst (fetch_itunes_artwork n a b w)"
  using itunes_fst [of n a b "snd (musicbrainz_artwork cfg n a b w)" w]
  by (simp add: resolve_artwork_def split_beta)

text \<open>
  C5. \<^verbatim>\<open>fetch_artwork_for_folder\<close> asks the sources in the order MusicBrainz, Cover Art
  Archive, iTunes, Last.fm, each at most once. MusicBrainz comes first when it is enabled.
  iTunes is asked exactly when MusicBrainz and its archive gave no candidate and the
  high-resolution priority is enabled. Last.fm is asked exactly when neither gave a
  candidate and \<^verbatim>\<open>NO_LOW_RES\<close> is off; with \<^verbatim>\<open>NO_LOW_RES\<close> on it is never asked,
  neither by the resolver nor by \<^verbatim>\<open>fetch_lastfm_artwork\<close> itself. The result is the
  candidate of the first source that gave one.
\<close>

theorem resolver_priority_order:
  "requests (snd (resolve_artwork cfg n artist album w)) =
     requests w @ asked w (snd (resolve_artwork cfg n artist album w))
   \<and> subseq (asked w (snd (resolve_artwork cfg n artist album w)))
        [MusicBrainz, CoverArtArchive, ITunes, LastFm]
   \<and> (USE_MUSICBRAINZ cfg \<longrightarrow>
        (\<exists>rest. asked w (snd (resolve_artwork cfg n artist album w)) = MusicBrainz # rest))
   \<and> (ITunes \<in> set (asked w (snd (resolve_artwork cfg n artist album w))) \<longleftrightarrow>
        \<not> truthy (fst (musicbrainz_artwork cfg n artist album w)) \<and> USE_HIRES_PRIORITY cfg)
   \<and> (LastFm \<in> set (asked w (snd (resolve_artwork cfg n artist album w))) \<longleftrightarrow>
        \<not> truthy (fst (musicbrainz_artwork cfg n artist album w))
        \<and> \<not> (USE_HIRES_PRIORITY cfg \<and> truthy (fst (fetch_itunes_artwork n artist album w)))
        \<and> \<not> NO_LOW_RES cfg)
   \<and> (NO_LOW_RES cfg \<longrightarrow>
        LastFm \<notin> set (asked w (snd (resolve_artwork cfg n artist album w)))
        \<and> requests (snd (fetch_lastfm_artwork cfg n artist album w)) = requests w)
   \<and> (truthy (fst (musicbrainz_artwork cfg n artist album w)) \<longrightarrow>
        fst (resolve_artwork cfg n artist album w) =
          fst (musicbrainz_artwork cfg n artist album w))
   \<and> (\<not> truthy (fst (musicbrainz_artwork cfg n artist album w)) \<and> USE_HIRES_PRIORITY cfg
        \<and> truthy (fst (fetch_itunes_artwork n artist album w)) \<longrightarrow>
        fst (resolve_artwork cfg n artist album w) =
          fst (fetch_itunes_artwork n artist album w))"
proof -
  let ?w' = "snd (resolve_artwork cfg n artist album w)"
  let ?mb = "fst (musicbrainz_artwork cfg n artist album w)"
  let ?it = "fst (fetch_itunes_artwork n artist album w)"
  have a: "asked w ?w' = mb_calls cfg n artist album
       @ (if \<not> truthy ?mb \<and> USE_HIRES_PRIORITY cfg then [ITunes] else [])
       @ (if \<not> truthy ?mb \<and> \<not> (USE_HIRES_PRIORITY cfg \<and> truthy ?it) \<and> \<not> NO_LOW_RES cfg
          then [LastFm] else [])"
    by (simp add: asked_def resolve_requests)
  have m: "mb_calls cfg n artist album = [] \<and> \<not> USE_MUSICBRAINZ cfg
           \<or> mb_calls cfg n artist album = [MusicBrainz] \<and> USE_MUSICBRAINZ cfg
           \<or> mb_calls cfg n artist album = [MusicBrainz, CoverArtArchive] \<and> USE_MUSICBRAINZ cfg"
    by (simp add: mb_calls_def)
  have 1: "requests ?w' = requests w @ asked w ?w'"
    by (simp add: a resolve_requests)
  have 2: "subseq (asked w ?w') [MusicBrainz, CoverArtArchive, ITunes, LastFm]"
    using m by (auto simp: a)
  have 3: "USE_MUSICBRAINZ cfg \<longrightarrow> (\<exists>rest. asked w ?w' = MusicBrainz # rest)"
    using m by (auto simp: a)
  have 4: "ITunes \<in> set (asked w ?w') \<longleftrightarrow> \<not> truthy ?mb \<and> USE_HIRES_PRIORITY cfg"
    using m by (auto simp: a)
  have 5: "LastFm \<in> set (asked w ?w') \<longleftrightarrow>
        \<not> truthy ?mb \<and> \<not> (USE_HIRES_PRIORITY cfg \<and> truthy ?it) \<and> \<not> NO_LOW_RES cfg"
    using m by (auto simp: a)
  have 6: "NO_LOW_RES cfg \<longrightarrow> LastFm \<notin> set (asked w ?w')
             \<and> requests (snd (fetch_lastfm_artwork cfg n artist album w)) = requests w"
    using 5 by (simp add: lastfm_requests)
  show ?thesis
    using 1 2 3 4 5 6 resolve_fst_mb [of cfg n artist album w]
      resolve_fst_itunes [of cfg n artist album w]
    by blast
qed

theorem resolver_priority_order_witness:
  "USE_MUSICBRAINZ both_on \<and> NO_LOW_RES both_on \<and> USE_HIRES_PRIORITY both_on
   \<and> \<not> truthy (fst (musicbrainz_artwork both_on itunes_net ''the band'' ''Album'' blank))
   \<and> truthy (fst (fetch_itunes_artwork itunes_net ''the band'' ''Album'' blank))
   \<and> asked blank (snd (resolve_artwork both_on itunes_net ''the band'' ''Album'' blank)) =
       [MusicBrainz, ITunes]
   \<and> fst (resolve_artwork both_on itunes_net ''the band'' ''Album'' blank) =
       Some ''http://i/600.jpg''
   \<and> truthy (fst (musicbrainz_artwork both_on archive_net ''the band'' ''Album'' blank))
   \<and> asked blank (snd (resolve_artwork both_on archive_net ''the band'' ''Album'' blank)) =
       [MusicBrainz, CoverArtArchive]
   \<and> fst (resolve_artwork both_on archive_net ''the band'' ''Album'' blank) =
       Some ''http://c/front''"
proof -
  have s: "USE_MUSICBRAINZ both_on \<and> NO_LOW_RES both_on \<and> USE_HIRES_PRIORITY both_on"
    by (simp add: both_on_def)
  have m1: "\<not> truthy (fst (musicbrainz_artwork both_on itunes_net ''the band'' ''Album'' blank))"
    by (simp add: musicbrainz_artwork_def both_on_def itunes_net_def silent_net_def
        fetch_musicbrainz_release_id_def truthy_def Let_def)
  have i1: "fst (fetch_itunes_artwork itunes_net ''the band'' ''Album'' blank) =
            Some ''http://i/600.jpg''"
    by (simp add: fetch_itunes_artwork_def itunes_net_def silent_net_def Let_def
        lower_def lower_char_def)
  have m2: "fst (musicbrainz_artwork both_on archive_net ''the band'' ''Album'' blank) =
            Some ''http://c/front''"
    by (simp add: musicbrainz_artwork_def both_on_def archive_net_def silent_net_def
        fetch_musicbrainz_release_id_def fetch_caa_artwork_def truthy_def Let_def)
  have r1: "asked blank (snd (resolve_artwork both_on itunes_net ''the band'' ''Album'' blank)) =
       [MusicBrainz, ITunes]"
    by (simp add: asked_def blank_def resolve_artwork_def musicbrainz_artwork_def both_on_def
        itunes_net_def silent_net_def fetch_musicbrainz_release_id_def truthy_def Let_def
        fetch_itunes_artwork_def lower_def lower_char_def request_def log_line_def)
  have r2: "asked blank (snd (resolve_artwork both_on archive_net ''the band'' ''Album'' blank)) =
       [MusicBrainz, CoverArtArchive]"
    by (simp add: asked_def blank_def resolve_artwork_def musicbrainz_artwork_def both_on_def
        archive_net_def silent_net_def fetch_musicbrainz_release_id_def truthy_def Let_def
        fetch_caa_artwork_def request_def log_line_def)
  have t1: "truthy (fst (fetch_itunes_artwork itunes_net ''the band'' ''Album'' blank))"
    by (simp add: i1 truthy_def)
  have t2: "truthy (fst (musicbrainz_artwork both_on archive_net ''the band'' ''Album'' blank))"
    by (simp add: m2 truthy_def)
  show ?thesis
    using s m1 t1 t2 r1 r2 i1 m2
      resolver_priority_order [of both_on itunes_net "''the band''" "''Album''" blank]
      resolver_priority_order [of both_on archive_net "''the band''" "''Album''" blank]
    by simp
qed

section \<open>The first MP3 of a folder\<close>

text \<open>
  C8 (as amended). The audio file used for the identity lookup and for the artwork
  export is the first name ending in \<^verbatim>\<open>.mp3\<close> in the order in which \<^verbatim>\<open>os.listdir\<close>
  enumerates the folder: \<^verbatim>\<open>export_cover_from_mp3\<close> and \<^verbatim>\<open>fetch_artwork_for_folder\<close>
  work on that file. The choice is a function of the enumeration, so two runs that see
  the same enumeration pick the same file; it is the first MP3 in sorted filename order
  when the enumeration is sorted.
\<close>

theorem first_mp3_in_enumeration_order:
  assumes "listdir w folder = before @ f # after"
    and "endswith f ''.mp3''"
    and "\<forall>g \<in> set before. \<not> endswith g ''.mp3''"
  shows "export_cover_from_mp3 folder w = export_from folder f w
     \<and> (files w (path_join folder ''cover.jpg'') = None \<longrightarrow>
          fetch_artwork_for_folder cfg n folder w = fetch_from cfg n folder f w)
     \<and> (sorted (listdir w folder) \<longrightarrow>
          (\<forall>g \<in> set (listdir w folder). endswith g ''.mp3'' \<longrightarrow> f \<le> g))"
proof -
  have m: "music_files_of w folder = f # filter (\<lambda>g. endswith g ''.mp3'') after"
    using assms by (simp add: music_files_of_def)
  have s: "\<forall>g \<in> set (listdir w folder). endswith g ''.mp3'' \<longrightarrow> f \<le> g"
    if "sorted (listdir w folder)"
    using that assms by (auto simp: sorted_append)
  show ?thesis
    using m s
    by (simp add: export_cover_from_mp3_def fetch_artwork_for_folder_def Let_def)
qed

theorem first_mp3_witness:
  "listdir (two_tracks [''cover.txt'', ''b.mp3'', ''a.mp3'']) ''/m'' =
     [''cover.txt''] @ ''b.mp3'' # [''a.mp3'']
   \<and> endswith ''b.mp3'' ''.mp3''
   \<and> \<not> endswith ''cover.txt'' ''.mp3''
   \<and> files (two_tracks [''cover.txt'', ''b.mp3'', ''a.mp3'']) (path_join ''/m'' ''cover.jpg'') =
       None
   \<and> export_cover_from_mp3 ''/m'' (two_tracks [''cover.txt'', ''b.mp3'', ''a.mp3'']) =
       export_from ''/m'' ''b.mp3'' (two_tracks [''cover.txt'', ''b.mp3'', ''a.mp3''])
   \<and> fetch_artwork_for_folder both_on silent_net ''/m''
         (two_tracks [''cover.txt'', ''b.mp3'', ''a.mp3'']) =
       fetch_from both_on silent_net ''/m'' ''b.mp3''
         (two_tracks [''cover.txt'', ''b.mp3'', ''a.mp3''])
   \<and> sorted (listdir (two_tracks [''a.mp3'', ''b.mp3'']) ''/m'')
   \<and> export_cover_from_mp3 ''/m'' (two_tracks [''a.mp3'', ''b.mp3'']) =
       export_from ''/m'' ''a.mp3'' (two_tracks [''a.mp3'', ''b.mp3''])"
proof -
  let ?w = "two_tracks [''cover.txt'', ''b.mp3'', ''a.mp3'']"
  let ?v = "two_tracks [''a.mp3'', ''b.mp3'']"
  have h1: "listdir ?w ''/m'' = [''cover.txt''] @ ''b.mp3'' # [''a.mp3'']"
    by (simp add: two_tracks_def blank_def)
  have h2: "endswith ''b.mp3'' ''.mp3''"
    by (simp add: path_eval)
  have h3: "\<forall>g \<in> set [''cover.txt'']. \<not> endswith g ''.mp3''"
    by (simp add: path_eval)
  have h4: "files ?w (path_join ''/m'' ''cover.jpg'') = None"
    by (simp add: two_tracks_def blank_def path_eval)
  have k1: "listdir ?v ''/m'' = [] @ ''a.mp3'' # [''b.mp3'']"
    by (simp add: two_tracks_def blank_def)
  have k2: "endswith ''a.mp3'' ''.mp3''"
    by (simp add: path_eval)
  have k3: "\<forall>g \<in> set []. \<not> endswith g ''.mp3''"
    by simp
  have k4: "sorted (listdir ?v ''/m'')"
    by (simp add: two_tracks_def blank_def)
  show ?thesis
    using h1 h2 h3 h4 k4
      first_mp3_in_enumeration_order [OF h1 h2 h3, of both_on silent_net]
      first_mp3_in_enumeration_order [OF k1 k2 k3, of both_on silent_net]
    by simp
qed

text \<open>
  The claim as the specification words it has the choice independent of the
  enumeration order. The same two tracks, enumerated as \<^verbatim>\<open>b.mp3, a.mp3\<close> and as
  \<^verbatim>\<open>a.mp3, b.mp3\<close>, give different covers and different artists, and the first
  enumeration does not pick the first name in sorted order.
\<close>

theorem enumeration_order_decides_first_mp3:
  "files (two_tracks [''b.mp3'', ''a.mp3'']) = files (two_tracks [''a.mp3'', ''b.mp3''])
   \<and> set (listdir (two_tracks [''b.mp3'', ''a.mp3'']) ''/m'') =
       set (listdir (two_tracks [''a.mp3'', ''b.mp3'']) ''/m'')
   \<and> files (snd (export_cover_from_mp3 ''/m'' (two_tracks [''b.mp3'', ''a.mp3''])))
        ''/m/cover.jpg'' = Some (Plain (jpeg 200 200))
   \<and> files (snd (export_cover_from_mp3 ''/m'' (two_tracks [''a.mp3'', ''b.mp3''])))
        ''/m/cover.jpg'' = Some (Plain (jpeg 100 100))
   \<and> out (snd (fetch_artwork_for_folder both_on silent_net ''/m''
             (two_tracks [''b.mp3'', ''a.mp3'']))) =
       [ProcessingFolder ''/m'' ''Artist B'' ''Unknown Album'',
        NoArtworkFound ''Artist B'' ''Unknown Album'']
   \<and> out (snd (fetch_artwork_for_folder both_on silent_net ''/m''
             (two_tracks [''a.mp3'', ''b.mp3'']))) =
       [ProcessingFolder ''/m'' ''Artist A'' ''Unknown Album'',
        NoArtworkFound ''Artist A'' ''Unknown Album'']
   \<and> ''a.mp3'' < ''b.mp3''"
  by (simp add: two_tracks_def blank_def cover_tag_def export_cover_from_mp3_def
      export_from_def music_files_of_def path_eval id3_load_def Let_def write_file_def say_def
      fetch_artwork_for_folder_def fetch_from_def get_artist_album_from_id3_def tag_text_def
      resolve_artwork_def musicbrainz_artwork_def both_on_def silent_net_def
      fetch_musicbrainz_release_id_def fetch_itunes_artwork_def request_def log_line_def
      truthy_def insert_commute)

section \<open>The command line\<close>

text \<open>
  C9 (the code departs from it). In \<^verbatim>\<open>embed-artwork.py\<close> and \<^verbatim>\<open>export-coverart.py\<close>
  the branch of \<^verbatim>\<open>-a\<close> comes before the branch of \<^verbatim>\<open>-c\<close> in an \<^verbatim>\<open>elif\<close> chain, so
  with both flags the run is the run of \<^verbatim>\<open>-a\<close> alone: on a library of one artist, one
  album and one disc, every directory is processed, where \<^verbatim>\<open>-c\<close> alone processes the
  disc only. \<^verbatim>\<open>id3tocovr.py\<close> passes \<^verbatim>\<open>-c\<close> on and processes the disc only.
\<close>

theorem all_flag_overrides_cd_flag:
  "main_embed R root \<lparr>all = True, cd = True, input = None\<rparr> w =
     main_embed R root \<lparr>all = True, cd = False, input = None\<rparr> w
   \<and> main_export root \<lparr>all = True, cd = True, input = None\<rparr> w =
       main_export root \<lparr>all = True, cd = False, input = None\<rparr> w
   \<and> out (snd (main_embed 600 ''/music'' \<lparr>all = True, cd = True, input = None\<rparr> library)) =
       [CoverNotFound ''/music/Artist'', CoverNotFound ''/music/Artist/Album'',
        CoverNotFound ''/music/Artist/Album/CD 1'']
   \<and> out (snd (main_embed 600 ''/music'' \<lparr>all = False, cd = True, input = None\<rparr> library)) =
       [CoverNotFound ''/music/Artist/Album/CD 1'']
   \<and> out (snd (main_export ''/music'' \<lparr>all = True, cd = True, input = None\<rparr> library)) =
       [CoverNotFoundExporting ''/music/Artist'', NoMp3Found ''/music/Artist'',
        CouldNotExport ''/music/Artist'',
        CoverNotFoundExporting ''/music/Artist/Album'', NoMp3Found ''/music/Artist/Album'',
        CouldNotExport ''/music/Artist/Album'',
        CoverNotFoundExporting ''/music/Artist/Album/CD 1'',
        NoMp3Found ''/music/Artist/Album/CD 1'', CouldNotExport ''/music/Artist/Album/CD 1'']
   \<and> out (snd (main_fetch both_on silent_net ''/music''
                  \<lparr>all = True, cd = True, input = None\<rparr> library)) =
       [ProcessingArtist ''Artist'', NoMp3Found ''/music/Artist/Album/CD 1'']"
proof -
  have a: "main_embed R root \<lparr>all = True, cd = True, input = None\<rparr> w =
     main_embed R root \<lparr>all = True, cd = False, input = None\<rparr> w"
    by (simp add: main_embed_def truthy_def)
  have b: "main_export root \<lparr>all = True, cd = True, input = None\<rparr> w =
       main_export root \<lparr>all = True, cd = False, input = None\<rparr> w"
    by (simp add: main_export_def truthy_def)
  have c: "out (snd (main_embed 600 ''/music'' \<lparr>all = True, cd = True, input = None\<rparr> library)) =
       [CoverNotFound ''/music/Artist'', CoverNotFound ''/music/Artist/Album'',
        CoverNotFound ''/music/Artist/Album/CD 1'']"
    by (simp add: main_embed_def truthy_def embed_artwork_in_folder_def library_def blank_def
        process_folder_embed_def prepare_cover_def path_eval say_def Let_def)
  have d: "out (snd (main_embed 600 ''/music'' \<lparr>all = False, cd = True, input = None\<rparr> library)) =
       [CoverNotFound ''/music/Artist/Album/CD 1'']"
    by (simp add: main_embed_def truthy_def embed_artwork_in_folder_def library_def blank_def
        process_cd_folders_embed_def
        process_folder_embed_def prepare_cover_def path_eval say_def Let_def)
  have e: "out (snd (main_export ''/music'' \<lparr>all = True, cd = True, input = None\<rparr> library)) =
       [CoverNotFoundExporting ''/music/Artist'', NoMp3Found ''/music/Artist'',
        CouldNotExport ''/music/Artist'',
        CoverNotFoundExporting ''/music/Artist/Album'', NoMp3Found ''/music/Artist/Album'',
        CouldNotExport ''/music/Artist/Album'',
        CoverNotFoundExporting ''/music/Artist/Album/CD 1'',
        NoMp3Found ''/music/Artist/Album/CD 1'', CouldNotExport ''/music/Artist/Album/CD 1'']"
    by (simp add: main_export_def truthy_def library_def blank_def
        process_folder_export_def export_cover_from_mp3_def music_files_of_def
        path_eval say_def Let_def)
  have f: "out (snd (main_fetch both_on silent_net ''/music''
                  \<lparr>all = True, cd = True, input = None\<rparr> library)) =
       [ProcessingArtist ''Artist'', NoMp3Found ''/music/Artist/Album/CD 1'']"
    by (simp add: main_fetch_def truthy_def library_def blank_def finish_def
        process_folder_fetch_def process_album_def fetch_artwork_for_folder_def
        music_files_of_def lower_def lower_char_def log_line_def
        path_eval say_def Let_def)
  from a b c d e f show ?thesis by simp
qed

section \<open>A folder without audio files\<close>

text \<open>
  C7 (as amended). For a folder in which no name ends in \<^verbatim>\<open>.mp3\<close>:
  \<^verbatim>\<open>process_folder\<close> of \<^verbatim>\<open>embed-artwork.py\<close> changes no file other than the scratch
  file \<^verbatim>\<open>/tmp/temp_cover.jpg\<close> and prints no "no MP3 files" message;
  \<^verbatim>\<open>fetch_artwork_for_folder\<close>, when the folder has no \<^verbatim>\<open>cover.jpg\<close>, and
  \<^verbatim>\<open>export_cover_from_mp3\<close> print that no MP3 files were found and write no file
  (the former also appends the line to its log).
\<close>

theorem folder_without_audio_files:
  assumes "music_files_of w folder = []"
  shows "(\<forall>p. p \<noteq> temp_path \<longrightarrow> files (process_folder_embed R folder w) p = files w p)
     \<and> (\<forall>f. NoMp3Found f \<in> set (out (process_folder_embed R folder w)) \<longrightarrow>
             NoMp3Found f \<in> set (out w))
     \<and> (files w (path_join folder ''cover.jpg'') = None \<longrightarrow>
          fetch_artwork_for_folder cfg n folder w =
            (Inr (), log_line (NoMp3Found folder) (say (NoMp3Found folder) w)))
     \<and> export_cover_from_mp3 folder w = (False, say (NoMp3Found folder) w)"
proof -
  obtain r w1 where pc: "prepare_cover R folder w = (r, w1)"
    by (cases "prepare_cover R folder w")
  have o: "only_scratch_written w w1"
    using osw_prepare_cover [of w R folder] pc by simp
  then have m: "music_files_of w1 folder = []"
    using assms by (simp add: only_scratch_written_def)
  have p: "process_folder_embed R folder w = w1"
    using pc m by (cases r) (simp_all add: process_folder_embed_def)
  show ?thesis
    using o assms
    by (simp add: p only_scratch_written_def fetch_artwork_for_folder_def
        export_cover_from_mp3_def)
qed

theorem folder_without_audio_files_witness:
  "music_files_of blank ''/m'' = []
   \<and> files blank (path_join ''/m'' ''cover.jpg'') = None
   \<and> files (process_folder_embed 600 ''/m'' blank) ''/m/cover.jpg'' = None
   \<and> fetch_artwork_for_folder both_on silent_net ''/m'' blank =
        (Inr (), log_line (NoMp3Found ''/m'') (say (NoMp3Found ''/m'') blank))
   \<and> export_cover_from_mp3 ''/m'' blank = (False, say (NoMp3Found ''/m'') blank)"
proof -
  have h: "music_files_of blank ''/m'' = []"
    by (simp add: music_files_of_def blank_def)
  have c: "files blank (path_join ''/m'' ''cover.jpg'') = None"
    by (simp add: blank_def)
  have t: "''/m/cover.jpg'' \<noteq> temp_path"
    by (simp add: temp_path_def)
  have b: "files blank ''/m/cover.jpg'' = None"
    by (simp add: blank_def)
  show ?thesis
    using h c t b folder_without_audio_files [OF h, of 600 both_on silent_net]
    by simp
qed

text \<open>
  The claim as the specification words it has the engine report "no files" and write
  nothing. A folder that holds a 1000 by 1000 cover and no track, with a target of 600:
  the resized cover is written to the scratch file, and the two messages printed say
  nothing about missing files.
\<close>

theorem cover_without_tracks_is_still_resized:
  "music_files_of (cover_only (jpeg 1000 1000)) ''/m'' = []
   \<and> files (cover_only (jpeg 1000 1000)) temp_path = None
   \<and> files (process_folder_embed 600 ''/m'' (cover_only (jpeg 1000 1000))) temp_path =
       Some (Plain (jpeg 600 600))
   \<and> out (process_folder_embed 600 ''/m'' (cover_only (jpeg 1000 1000))) =
       [FoundCover ''/m'' ''JPEG'', CreatedResized temp_path]"
  by (simp add: cover_only_def blank_def jpeg_def process_folder_embed_def
      prepare_cover_def path_eval verify_cover_def image_open_def decode_def say_def
      check_cover_resolution_def choose_cover_def create_temp_cover_def resize_def
      to_rgb_def convert_def
      save_temp_def jpeg_writer_accepts_def jpeg_modes_def jpeg_read_mode_def
      write_file_def temp_dir_def temp_name_def temp_path_def music_files_of_def Let_def)

section \<open>Export, then embed\<close>

lemma mp3_path_suffix: "endswith f ''.mp3'' \<Longrightarrow> suffix ''.mp3'' (path_join folder f)"
  using path_join_suffix [of f folder] by (auto simp: endswith_def intro: suffix_order.trans)

lemma mp3_path_not_temp: "endswith f ''.mp3'' \<Longrightarrow> path_join folder f \<noteq> temp_path"
proof
  assume "endswith f ''.mp3''" and "path_join folder f = temp_path"
  then have "suffix ''.mp3'' temp_path"
    using mp3_path_suffix [of f folder] by simp
  then show False
    by (simp add: temp_path_def suffix_to_prefix)
qed

lemma mp3_path_not_cover:
  "endswith f ''.mp3'' \<Longrightarrow> path_join folder f \<noteq> path_join folder' ''cover.jpg''"
proof
  assume "endswith f ''.mp3''" and eq: "path_join folder f = path_join folder' ''cover.jpg''"
  then have a: "suffix ''.mp3'' (path_join folder' ''cover.jpg'')"
    using mp3_path_suffix [of f folder] by simp
  have b: "suffix ''cover.jpg'' (path_join folder' ''cover.jpg'')"
    by (rule path_join_suffix)
  from suffix_same_cases [OF a b] show False
    by (simp add: suffix_to_prefix)
qed

lemma find_artwork_resolution:
  "find (\<lambda>(k, tag). is_APIC tag) tags = Some (k, tag) \<Longrightarrow>
   get_embedded_artwork_resolution tags =
     (case decode (data tag) of
        Inl e \<Rightarrow> Inl e
      | Inr (fmt, img) \<Rightarrow> Inr (Some (width img, height img)))"
  by (induction tags) (auto split: if_splits)

lemma one_artwork_found:
  assumes "length (filter (\<lambda>(k, tag). is_APIC tag) tags) = 1"
  shows "\<exists>k tag. find (\<lambda>(k, tag). is_APIC tag) tags = Some (k, tag)"
proof (cases "find (\<lambda>(k, tag). is_APIC tag) tags")
  case None
  then have "filter (\<lambda>(k, tag). is_APIC tag) tags = []"
    by (auto simp: find_None_iff filter_empty_conv)
  with assms show ?thesis by simp
next
  case (Some a)
  then show ?thesis by (cases a) simp
qed

lemma replace_artwork_files_cases:
  "files (replace_artwork tc mp a w) q = files w q \<or> q = mp"
  using remove_artwork_files [of mp a w]
  by (auto simp: replace_artwork_def split_beta Let_def split: sum.splits)

lemma embed_file_files:
  "files (embed_file tc folder g w) q = files w q
   \<or> (q = path_join folder g \<and> (\<exists>t. files w q = Some (Audio t)))"
proof (cases "id3_load w (path_join folder g)")
  case (Inl e)
  then show ?thesis by (simp add: embed_file_def Let_def id3_load_def)
next
  case (Inr a)
  then have au: "files w (path_join folder g) = Some (Audio a)"
    by (auto simp: id3_load_def split: option.splits filedata.splits)
  have r: "files (replace_artwork tc (path_join folder g) a (say m w)) q = files w q
           \<or> q = path_join folder g" for m
    using replace_artwork_files_cases [of tc "path_join folder g" a "say m w" q] by simp
  have r2: "files (replace_artwork tc (path_join folder g) a (say m2 (say m w))) q = files w q
           \<or> q = path_join folder g" for m m2
    using replace_artwork_files_cases [of tc "path_join folder g" a "say m2 (say m w)" q]
    by simp
  show ?thesis
    using au r r2
    by (auto simp: embed_file_def Let_def Inr id3_load_def
        split: sum.splits option.splits prod.splits)
qed

lemma embed_file_skip:
  assumes "files w (path_join folder g) = Some (Audio tags)"
    and "get_embedded_artwork_resolution tags = Inr (Some (ew, eh))"
    and "files w tc = Some (Plain (Encoded fmt img))"
    and "width img \<le> ew" and "height img \<le> eh"
  shows "files (embed_file tc folder g w) = files w"
  using assms
  by (simp add: embed_file_def Let_def id3_load_def image_open_def decode_def)

lemma embed_files_keep:
  assumes "files w p = Some (Audio tags)"
    and "get_embedded_artwork_resolution tags = Inr (Some (ew, eh))"
    and "files w tc = Some (Plain (Encoded fmt img))"
    and "width img \<le> ew" and "height img \<le> eh"
  shows "files (embed_files tc folder gs w) p = Some (Audio tags)"
  using assms(1,3)
proof (induction gs arbitrary: w)
  case Nil
  then show ?case by simp
next
  case (Cons g gs)
  let ?w = "embed_file tc folder g w"
  have "files ?w p = Some (Audio tags) \<and> files ?w tc = Some (Plain (Encoded fmt img))"
  proof (cases "path_join folder g = p")
    case True
    then show ?thesis
      using embed_file_skip [of w folder g tags ew eh tc fmt img] Cons.prems assms(2,4,5)
      by simp
  next
    case False
    then show ?thesis
      using embed_file_files [of tc folder g w p] embed_file_files [of tc folder g w tc]
        Cons.prems
      by auto
  qed
  then show ?case
    using Cons.IH [of ?w] by simp
qed

lemma create_temp_cover_Inr:
  assumes "files w cp = Some (Plain (Encoded fmt img))"
    and "create_temp_cover cp R w = (Inr p, w')"
  shows "\<exists>img'. files w' p = Some (Plain (Encoded ''JPEG'' img'))
           \<and> width img' \<le> width img \<and> height img' \<le> height img"
proof -
  obtain img1 img2 u
    where c: "to_rgb img = Inr img1"
      and r: "(if R \<le> width img1 \<and> R \<le> height img1 then resize img1 (R, R)
               else Inr img1) = Inr img2"
      and s: "save_temp img2 w = (Inr u, w')"
      and p: "p = temp_path"
    using assms
    by (auto simp: create_temp_cover_def image_open_def decode_def
        split: sum.splits prod.splits)
  have d1: "width img1 = width img \<and> height img1 = height img"
    using c by (auto simp: to_rgb_def convert_def split: if_splits)
  have d2: "width img2 \<le> width img1 \<and> height img2 \<le> height img1"
    using r by (auto simp: resize_def split: if_splits)
  have "files w' temp_path =
          Some (Plain (Encoded ''JPEG'' (img2\<lparr>mode := jpeg_read_mode (mode img2)\<rparr>)))"
    using s by (auto simp: save_temp_def files_write_file temp_path_join split: if_splits)
  then show ?thesis
    using d1 d2 p by simp
qed

lemma prepare_cover_Inr:
  assumes cover: "files w (path_join folder ''cover.jpg'') = Some (Plain c)"
    and res: "prepare_cover R folder w = (Inr tc, w')"
  shows "\<exists>fmt img fmt' img'. c = Encoded fmt img
           \<and> files w' tc = Some (Plain (Encoded fmt' img'))
           \<and> width img' \<le> width img \<and> height img' \<le> height img"
proof -
  let ?c = "path_join folder ''cover.jpg''"
  obtain r w1 where v: "verify_cover folder ?c w = (r, w1)"
    by (cases "verify_cover folder ?c w")
  have o1: "only_scratch_written w w1"
    using osw_verify_cover [of w folder ?c] v by simp
  then have c1: "files w1 ?c = Some (Plain c)"
    using cover cover_path_not_temp by (simp add: only_scratch_written_def)
  obtain conv where r: "r = Inr conv"
    using res cover v by (cases r) (auto simp: prepare_cover_def Let_def split: if_splits)
  obtain fmt img where c: "c = Encoded fmt img"
    using v r cover
    by (cases c) (auto simp: verify_cover_def image_open_def decode_def)
  have ch: "choose_cover R folder ?c (width img) (height img) w1 = (Inr tc, w')"
    using res cover v r c check_cover_resolution_decodable [OF c1 [unfolded c]]
    by (simp add: prepare_cover_def Let_def)
  show ?thesis
  proof (cases "width img < R \<and> height img < R")
    case True
    then have "tc = ?c" "files w' = files w1"
      using ch by (auto simp: choose_cover_def)
    then show ?thesis
      using c c1 by auto
  next
    case False
    then obtain w2 where ct: "create_temp_cover ?c R w1 = (Inr tc, w2)"
      and w': "files w' = files w2"
      using ch by (auto simp: choose_cover_def split: prod.splits sum.splits)
    from create_temp_cover_Inr [OF c1 [unfolded c] ct] show ?thesis
      using c w' by auto
  qed
qed

text \<open>
  C6. The first MP3 of a folder carries exactly one artwork tag. After
  \<^verbatim>\<open>export_cover_from_mp3\<close> has written that artwork to \<^verbatim>\<open>cover.jpg\<close>, the embedding
  pass \<^verbatim>\<open>process_folder\<close> over the same folder leaves the file as it was, for every
  target resolution: the same single artwork tag, hence the same artwork dimensions and
  no second tag. (The cover cut from the artwork is never larger than the artwork, so
  the comparison of line 168 skips the file.)
\<close>

theorem export_then_embed_keeps_file:
  assumes first: "music_files_of w folder = f # others"
    and track: "files w (path_join folder f) = Some (Audio tags)"
    and one: "length (filter (\<lambda>(k, tag). is_APIC tag) tags) = 1"
  shows "files (process_folder_embed R folder (snd (export_cover_from_mp3 folder w)))
           (path_join folder f) = Some (Audio tags)"
proof -
  let ?p = "path_join folder f"
  let ?c = "path_join folder ''cover.jpg''"
  have "f \<in> set (music_files_of w folder)"
    using first by simp
  then have mp3: "endswith f ''.mp3''"
    by (simp add: music_files_of_def)
  obtain k tag where found: "find (\<lambda>(k, tag). is_APIC tag) tags = Some (k, tag)"
    using one_artwork_found [OF one] by blast
  let ?w1 = "snd (export_cover_from_mp3 folder w)"
  have p1: "files ?w1 ?p = Some (Audio tags)"
    using first track found mp3_path_not_cover [OF mp3, of folder folder]
    by (simp add: export_cover_from_mp3_def export_from_def id3_load_def Let_def
        files_write_file)
  have c1: "files ?w1 ?c = Some (Plain (data tag))"
    using first track found
    by (simp add: export_cover_from_mp3_def export_from_def id3_load_def Let_def
        files_write_file)
  obtain r w2 where pc: "prepare_cover R folder ?w1 = (r, w2)"
    by (cases "prepare_cover R folder ?w1")
  have o: "only_scratch_written ?w1 w2"
    using osw_prepare_cover [of ?w1 R folder] pc by simp
  then have p2: "files w2 ?p = Some (Audio tags)"
    using p1 mp3_path_not_temp [OF mp3, of folder] by (simp add: only_scratch_written_def)
  show ?thesis
  proof (cases r)
    case (Inl e)
    then show ?thesis
      using pc p2 by (simp add: process_folder_embed_def)
  next
    case (Inr tc)
    then obtain fmt img fmt' img' where d: "data tag = Encoded fmt img"
      and t: "files w2 tc = Some (Plain (Encoded fmt' img'))"
      and le: "width img' \<le> width img" "height img' \<le> height img"
      using prepare_cover_Inr [OF c1, of R tc w2] pc by blast
    have g: "get_embedded_artwork_resolution tags = Inr (Some (width img, height img))"
      using find_artwork_resolution [OF found] d by (simp add: decode_def)
    show ?thesis
      using pc Inr embed_files_keep [OF p2 g t le]
      by (simp add: process_folder_embed_def)
  qed
qed

theorem export_then_embed_witness:
  "music_files_of (art_folder (jpeg 800 800)) ''/m'' = ''a.mp3'' # []
   \<and> files (art_folder (jpeg 800 800)) (path_join ''/m'' ''a.mp3'') =
       Some (Audio [cover_tag (jpeg 800 800)])
   \<and> length (filter (\<lambda>(k, tag). is_APIC tag) [cover_tag (jpeg 800 800)]) = 1
   \<and> files (snd (export_cover_from_mp3 ''/m'' (art_folder (jpeg 800 800)))) ''/m/cover.jpg'' =
       Some (Plain (jpeg 800 800))
   \<and> files (process_folder_embed 600 ''/m''
               (snd (export_cover_from_mp3 ''/m'' (art_folder (jpeg 800 800)))))
         (path_join ''/m'' ''a.mp3'') = Some (Audio [cover_tag (jpeg 800 800)])"
proof -
  let ?w = "art_folder (jpeg 800 800)"
  have h1: "music_files_of ?w ''/m'' = ''a.mp3'' # []"
    by (simp add: art_folder_def blank_def music_files_of_def path_eval)
  have h2: "files ?w (path_join ''/m'' ''a.mp3'') = Some (Audio [cover_tag (jpeg 800 800)])"
    by (simp add: art_folder_def blank_def path_eval)
  have h3: "length (filter (\<lambda>(k, tag). is_APIC tag) [cover_tag (jpeg 800 800)]) = 1"
    by (simp add: cover_tag_def)
  have e: "files (snd (export_cover_from_mp3 ''/m'' ?w)) ''/m/cover.jpg'' =
             Some (Plain (jpeg 800 800))"
    by (simp add: art_folder_def blank_def cover_tag_def export_cover_from_mp3_def
        export_from_def music_files_of_def path_eval id3_load_def Let_def write_file_def)
  show ?thesis
    using h1 h2 h3 e export_then_embed_keeps_file [OF h1 h2 h3, of 600]
    by simp
qed

end
